theory Spec2Isabelle
  imports Main "HOL-Library.Word"
begin

section \<open>The RESP server of internal/server/resp/server.go\<close>

text \<open>
  A shallow embedding of \<^verbatim>\<open>server.go\<close>: the listening socket
  (\<^verbatim>\<open>BindAndListen\<close>, \<^verbatim>\<open>ReleasePort\<close>), the accept loop
  (\<^verbatim>\<open>AcceptConnectionRequests\<close>), the two worker goroutines per connection
  (\<^verbatim>\<open>startIOThread\<close>, \<^verbatim>\<open>startCommandHandler\<close>), the identity
  generator (\<^verbatim>\<open>GenerateUniqueID\<close>) and the top-level \<^verbatim>\<open>Run\<close>.

  Everything the operating system, the clock, the Go scheduler and the packages outside
  this file decide is an explicit input: the results of the system calls, the clock
  readings, what each iteration of the accept loop observes, which case of a
  \<^verbatim>\<open>select\<close> fires, and which blocking calls have returned.
\<close>

subsection \<open>Errors\<close>

type_synonym errno = nat

text \<open>\<^verbatim>\<open>syscall.EAGAIN\<close> and \<^verbatim>\<open>syscall.EWOULDBLOCK\<close> (Linux: both 0xb).\<close>

definition EAGAIN :: errno where
  "EAGAIN = 11"

definition EWOULDBLOCK :: errno where
  "EWOULDBLOCK = 11"

text \<open>
  Go's \<^verbatim>\<open>error\<close> values that occur in this file. \<open>Errorf msg e\<close> is
  \<^verbatim>\<open>fmt.Errorf(msg + "%w", e)\<close>; \<open>Canceled\<close> and \<open>DeadlineExceeded\<close> are
  what \<^verbatim>\<open>ctx.Err()\<close> returns once the context is done; \<open>IOHandlerErr\<close> is an
  error of \<^verbatim>\<open>netconn.NewIOHandler\<close>; \<open>WorkerErr\<close> is an error of a worker's
  \<^verbatim>\<open>Start\<close>. A nil error is \<open>None :: error option\<close>.
\<close>

datatype error =
    Errno errno
  | Errorf string error
  | ErrInvalidIPAddress
  | Canceled
  | DeadlineExceeded
  | IOHandlerErr nat
  | WorkerErr nat
  | DuplicateID
  | NotFound

subsection \<open>Identities: \<^verbatim>\<open>GenerateUniqueID\<close>\<close>

type_synonym uint64 = "64 word"
type_synonym int64 = "64 word"

text \<open>The verb \<^verbatim>\<open>%d\<close>: decimal digits, least significant first, then reversed.\<close>

definition digit :: "nat \<Rightarrow> char" where
  "digit d = char_of (48 + d)"

fun rdigits :: "nat \<Rightarrow> string" where
  "rdigits n = (if n < 10 then [digit n] else digit (n mod 10) # rdigits (n div 10))"

declare rdigits.simps [simp del]

definition fmt_uint :: "nat \<Rightarrow> string" where
  "fmt_uint n = rev (rdigits n)"

definition fmt_int :: "int \<Rightarrow> string" where
  "fmt_int i = (if i < 0 then CHR ''-'' # fmt_uint (nat (- i)) else fmt_uint (nat i))"

text \<open>\<^verbatim>\<open>fmt.Sprintf("%s-%d-%d", prefix, timestamp, count)\<close> with an
  \<^verbatim>\<open>int64\<close> timestamp (read signed) and a \<^verbatim>\<open>uint64\<close> count.\<close>

definition Sprintf_id :: "string \<Rightarrow> int64 \<Rightarrow> uint64 \<Rightarrow> string" where
  "Sprintf_id pre timestamp count =
     pre @ ''-'' @ fmt_int (sint timestamp) @ ''-'' @ fmt_uint (unat count)"

text \<open>
  \<^verbatim>\<open>GenerateUniqueID(prefix, counter)\<close>. The counter cell is passed in and its new
  value returned; \<^verbatim>\<open>atomic.AddUint64\<close> wraps at \<open>2^64\<close>, as \<open>+\<close> on
  \<open>64 word\<close> does. \<open>now\<close> is the reading of \<^verbatim>\<open>time.Now().UnixMilli()\<close> and
  \<open>start\<close> the package variable \<^verbatim>\<open>startTime\<close>.
\<close>

definition GenerateUniqueID :: "string \<Rightarrow> uint64 \<Rightarrow> int64 \<Rightarrow> int64 \<Rightarrow> string \<times> uint64" where
  "GenerateUniqueID pre counter now start =
     (let count = counter + 1;
          timestamp = now - start
      in (Sprintf_id pre timestamp count, count))"

text \<open>The identities returned by successive calls on one counter, one clock reading
  per call.\<close>

fun issued :: "string \<Rightarrow> uint64 \<Rightarrow> int64 \<Rightarrow> int64 list \<Rightarrow> string list" where
  "issued pre counter start [] = []"
| "issued pre counter start (now # nows) =
     (case GenerateUniqueID pre counter now start of
        (ident, counter') \<Rightarrow> ident # issued pre counter' start nows)"

subsection \<open>Worker handles and registries\<close>

record BaseIOThread =
  thread_id :: string
  thread_conn :: int

record BaseCommandHandler =
  handler_id :: string

type_synonym 'a registry = "string \<rightharpoonup> 'a"

text \<open>
  Modelled from the spec: the packages \<^verbatim>\<open>iothread\<close> and
  \<^verbatim>\<open>commandhandler\<close> (\<^verbatim>\<open>Manager.RegisterIOThread\<close>,
  \<^verbatim>\<open>Manager.UnregisterIOThread\<close>, \<^verbatim>\<open>Registry.RegisterCommandHandler\<close>,
  \<^verbatim>\<open>Registry.UnregisterCommandHandler\<close>) are not among the sources. The spec's
  Worker Registry: a mapping from identity to handle; registering an identity that is
  present fails with \<open>DuplicateID\<close> and stores nothing; unregistering an absent identity
  fails with \<open>NotFound\<close>, otherwise removes it.
\<close>

definition register :: "'a registry \<Rightarrow> string \<Rightarrow> 'a \<Rightarrow> error + 'a registry" where
  "register m k h = (case m k of Some _ \<Rightarrow> Inl DuplicateID | None \<Rightarrow> Inr (m(k \<mapsto> h)))"

definition unregister :: "'a registry \<Rightarrow> string \<Rightarrow> error + 'a registry" where
  "unregister m k = (case m k of None \<Rightarrow> Inl NotFound | Some _ \<Rightarrow> Inr (m(k := None)))"

definition RegisterIOThread :: "BaseIOThread registry \<Rightarrow> BaseIOThread \<Rightarrow> error + BaseIOThread registry" where
  "RegisterIOThread m thread = register m (thread_id thread) thread"

definition UnregisterIOThread :: "BaseIOThread registry \<Rightarrow> string \<Rightarrow> error + BaseIOThread registry" where
  "UnregisterIOThread m k = unregister m k"

definition RegisterCommandHandler ::
  "BaseCommandHandler registry \<Rightarrow> BaseCommandHandler \<Rightarrow> error + BaseCommandHandler registry" where
  "RegisterCommandHandler m handler = register m (handler_id handler) handler"

definition UnregisterCommandHandler ::
  "BaseCommandHandler registry \<Rightarrow> string \<Rightarrow> error + BaseCommandHandler registry" where
  "UnregisterCommandHandler m k = unregister m k"

subsection \<open>The server and the state it shares\<close>

text \<open>
  The fields of \<^verbatim>\<open>Server\<close>. The collaborators behind pointers and channels are
  opaque references; a nil channel is \<open>None\<close>. The two registries are held by pointer:
  their contents are part of the shared state below.
\<close>

record Server =
  Host :: string
  Port :: int
  serverFD :: int
  connBacklogSize :: int
  shardManager :: nat
  watchManager :: nat
  cmdWatchSubscriptionChan :: "nat option"
  globalErrorChan :: "nat option"
  wl :: nat

text \<open>The \<^verbatim>\<open>go\<close> statements of this file.\<close>

datatype goroutine =
    GoWatchManager
  | GoAccept
  | GoIOThread BaseIOThread
  | GoCommandHandler BaseCommandHandler

text \<open>
  What the code shares and mutates: the package counters and \<^verbatim>\<open>startTime\<close>, the
  contents of the two registries, the descriptors passed to \<^verbatim>\<open>syscall.Close\<close> (in
  call order), the goroutines launched (in launch order) and the counter of
  \<^verbatim>\<open>Run\<close>'s \<^verbatim>\<open>sync.WaitGroup\<close>.
\<close>

record world =
  ioThreadCounter :: uint64
  cmdHandlerCounter :: uint64
  startTime :: int64
  ioThreadManager :: "BaseIOThread registry"
  cmdHandlerManager :: "BaseCommandHandler registry"
  closeCalls :: "int list"
  goroutines :: "goroutine list"
  wg :: int

definition GenerateUniqueIOThreadID :: "int64 \<Rightarrow> world \<Rightarrow> string \<times> world" where
  "GenerateUniqueIOThreadID now w =
     (case GenerateUniqueID ''I'' (ioThreadCounter w) now (startTime w) of
        (ident, c) \<Rightarrow> (ident, w\<lparr>ioThreadCounter := c\<rparr>))"

definition GenerateUniqueCommandHandlerID :: "int64 \<Rightarrow> world \<Rightarrow> string \<times> world" where
  "GenerateUniqueCommandHandlerID now w =
     (case GenerateUniqueID ''C'' (cmdHandlerCounter w) now (startTime w) of
        (ident, c) \<Rightarrow> (ident, w\<lparr>cmdHandlerCounter := c\<rparr>))"

subsection \<open>\<^verbatim>\<open>BindAndListen\<close> and \<^verbatim>\<open>ReleasePort\<close>\<close>

text \<open>
  The results of the calls \<^verbatim>\<open>BindAndListen\<close> makes. A non-nil result of
  \<^verbatim>\<open>net.ParseIP\<close> is a 16-byte slice: its first four bytes and the rest.
\<close>

type_synonym IP = "8 word \<times> 8 word \<times> 8 word \<times> 8 word \<times> 8 word list"

record bind_sys =
  Socket :: "errno + int"
  SetsockoptInt :: "errno option"
  SetNonblock :: "errno option"
  ParseIP :: "string \<Rightarrow> IP option"
  Bind :: "int \<Rightarrow> 8 word list \<Rightarrow> errno option"
  Listen :: "int \<Rightarrow> errno option"

text \<open>
  The body after the socket exists (lines 141-167). The result is the final value of the
  local variable \<^verbatim>\<open>err\<close>, the value returned, and the server. The return of
  \<^verbatim>\<open>ErrInvalidIPAddress\<close> assigns nothing to \<^verbatim>\<open>err\<close>, which is nil there.
\<close>

definition BindAndListen_body :: "bind_sys \<Rightarrow> Server \<Rightarrow> int \<Rightarrow> error option \<times> error option \<times> Server" where
  "BindAndListen_body sys s fd =
     (case SetsockoptInt sys of
        Some e \<Rightarrow> (Some (Errno e), Some (Errorf ''failed to set SO_REUSEADDR: '' (Errno e)), s)
      | None \<Rightarrow>
     (case SetNonblock sys of
        Some e \<Rightarrow> (Some (Errno e), Some (Errorf ''failed to set socket to non-blocking: '' (Errno e)), s)
      | None \<Rightarrow>
     (case ParseIP sys (Host s) of
        None \<Rightarrow> (None, Some ErrInvalidIPAddress, s)
      | Some (b0, b1, b2, b3, rest) \<Rightarrow>
     (case Bind sys (Port s) [b0, b1, b2, b3] of
        Some e \<Rightarrow> (Some (Errno e), Some (Errorf ''failed to bind socket: '' (Errno e)), s)
      | None \<Rightarrow>
     (case Listen sys (connBacklogSize s) of
        Some e \<Rightarrow> (Some (Errno e), Some (Errorf ''failed to listen on socket: '' (Errno e)), s)
      | None \<Rightarrow> (None, None, s\<lparr>serverFD := fd\<rparr>))))))"

text \<open>
  \<^verbatim>\<open>BindAndListen\<close>: the socket is created, the deferred function is registered, the
  body runs, and on exit the deferred function closes the socket when the local
  \<^verbatim>\<open>err\<close> is not nil.
\<close>

definition BindAndListen :: "bind_sys \<Rightarrow> Server \<Rightarrow> world \<Rightarrow> error option \<times> Server \<times> world" where
  "BindAndListen sys s w =
     (case Socket sys of
        Inl e \<Rightarrow> (Some (Errorf ''failed to create socket: '' (Errno e)), s, w)
      | Inr fd \<Rightarrow>
          (case BindAndListen_body sys s fd of
             (err, ret, s') \<Rightarrow>
               (ret, s', if err \<noteq> None then w\<lparr>closeCalls := closeCalls w @ [fd]\<rparr> else w)))"

definition ReleasePort :: "Server \<Rightarrow> world \<Rightarrow> world" where
  "ReleasePort s w = w\<lparr>closeCalls := closeCalls w @ [serverFD s]\<rparr>"

definition Shutdown :: "Server \<times> world \<Rightarrow> Server \<times> world" where
  "Shutdown sw = sw"

subsection \<open>The accept loop\<close>

text \<open>
  What one iteration of the loop observes: the context is done (with the value of
  \<^verbatim>\<open>ctx.Err()\<close>); or \<^verbatim>\<open>syscall.Accept\<close> fails; or it returns a client
  descriptor, with the error of \<^verbatim>\<open>netconn.NewIOHandler\<close> (nil when it succeeds)
  and the clock readings of the two identity generations.
\<close>

datatype accept_event =
    CtxDone error
  | AcceptErr errno
  | Accepted int "error option" int64 int64

text \<open>Lines 202-236: one accepted connection whose handler was created. Both failure
  branches are \<^verbatim>\<open>continue\<close>, as is the end of the body.\<close>

definition AcceptConnectionRequests_conn :: "Server \<Rightarrow> int \<Rightarrow> int64 \<Rightarrow> int64 \<Rightarrow> world \<Rightarrow> world" where
  "AcceptConnectionRequests_conn s clientFD now1 now2 w =
     (case GenerateUniqueIOThreadID now1 w of (ioThreadID, w1) \<Rightarrow>
      let thread = \<lparr>thread_id = ioThreadID, thread_conn = clientFD\<rparr> in
      case GenerateUniqueCommandHandlerID now2 w1 of (cmdHandlerID, w2) \<Rightarrow>
      let handler = \<lparr>handler_id = cmdHandlerID\<rparr> in
      case RegisterIOThread (ioThreadManager w2) thread of
        Inl _ \<Rightarrow> w2
      | Inr m \<Rightarrow>
          let w3 = w2\<lparr>ioThreadManager := m\<rparr> in
          (case RegisterCommandHandler (cmdHandlerManager w3) handler of
             Inl _ \<Rightarrow> w3
           | Inr r \<Rightarrow>
               w3\<lparr>cmdHandlerManager := r,
                  wg := wg w3 + 2,
                  goroutines := goroutines w3 @ [GoIOThread thread, GoCommandHandler handler]\<rparr>))"

text \<open>
  \<^verbatim>\<open>AcceptConnectionRequests\<close>, one event per iteration. A script that ends while
  the loop is still polling gives \<open>None\<close>: the loop has not returned.
\<close>

fun AcceptConnectionRequests :: "Server \<Rightarrow> accept_event list \<Rightarrow> world \<Rightarrow> (error option \<times> world) option" where
  "AcceptConnectionRequests s [] w = None"
| "AcceptConnectionRequests s (CtxDone e # evs) w = Some (Some e, w)"
| "AcceptConnectionRequests s (AcceptErr e # evs) w =
     (if e = EAGAIN \<or> e = EWOULDBLOCK then AcceptConnectionRequests s evs w
      else Some (Some (Errorf ''error accepting connection: '' (Errno e)), w))"
| "AcceptConnectionRequests s (Accepted clientFD ioErr now1 now2 # evs) w =
     (case ioErr of
        Some e \<Rightarrow> Some (Some e, w)
      | None \<Rightarrow> AcceptConnectionRequests s evs (AcceptConnectionRequests_conn s clientFD now1 now2 w))"

subsection \<open>The worker goroutines\<close>

text \<open>A blocking call of a collaborator, seen when \<^verbatim>\<open>Run\<close> waits: it is still
  running, or it has returned (with its error).\<close>

datatype outcome = StillRunning | Returned "error option"

text \<open>
  \<^verbatim>\<open>startIOThread\<close>: \<^verbatim>\<open>wg.Done()\<close> is its first statement; the deferred
  unregistration runs when \<^verbatim>\<open>thread.Start\<close> has returned, whose error is only logged.
\<close>

definition startIOThread :: "world \<Rightarrow> BaseIOThread \<Rightarrow> outcome \<Rightarrow> world" where
  "startIOThread w thread start =
     (let w1 = w\<lparr>wg := wg w - 1\<rparr> in
      case start of
        StillRunning \<Rightarrow> w1
      | Returned _ \<Rightarrow>
          (case UnregisterIOThread (ioThreadManager w1) (thread_id thread) of
             Inl _ \<Rightarrow> w1
           | Inr m \<Rightarrow> w1\<lparr>ioThreadManager := m\<rparr>))"

definition startCommandHandler :: "world \<Rightarrow> BaseCommandHandler \<Rightarrow> outcome \<Rightarrow> world" where
  "startCommandHandler w cmdHandler start =
     (let w1 = w\<lparr>wg := wg w - 1\<rparr> in
      case start of
        StillRunning \<Rightarrow> w1
      | Returned _ \<Rightarrow>
          (case UnregisterCommandHandler (cmdHandlerManager w1) (handler_id cmdHandler) of
             Inl _ \<Rightarrow> w1
           | Inr m \<Rightarrow> w1\<lparr>cmdHandlerManager := m\<rparr>))"

subsection \<open>\<^verbatim>\<open>Run\<close>\<close>

datatype select_case = CaseCtxDone | CaseErrChan

text \<open>
  What the environment of one call of \<^verbatim>\<open>Run\<close> decides: the system calls of the
  bind, the script of the accept loop, for every worker whether its \<^verbatim>\<open>Start\<close> has
  returned when \<^verbatim>\<open>Run\<close> waits, whether \<^verbatim>\<open>watchManager.Run\<close> has, and the case
  of \<^verbatim>\<open>Run\<close>'s \<^verbatim>\<open>select\<close> that fires.
\<close>

record run_env =
  sys :: bind_sys
  accepts :: "accept_event list"
  thread_Start :: "string \<Rightarrow> outcome"
  handler_Start :: "string \<Rightarrow> outcome"
  watch_Run :: outcome
  select_fires :: select_case

text \<open>
  Lines 107-112. \<open>err\<close> is the named result, nil after a successful bind. The case
  \<^verbatim>\<open><-ctx.Done()\<close> leaves it; the case \<^verbatim>\<open>err = <-errChan\<close> needs a value in the
  channel (\<open>None\<close>: it never fires, the select blocks).
\<close>

definition Run_select :: "select_case \<Rightarrow> error option \<Rightarrow> error option \<Rightarrow> (error option) option" where
  "Run_select c errChan err =
     (case c of
        CaseCtxDone \<Rightarrow> Some err
      | CaseErrChan \<Rightarrow> (case errChan of None \<Rightarrow> None | Some e \<Rightarrow> Some (Some e)))"

text \<open>
  One goroutine, as far as it has run when \<^verbatim>\<open>Run\<close> waits. The watch goroutine and
  the accept goroutine defer \<^verbatim>\<open>wg.Done()\<close>; the workers call it first.
\<close>

definition run_goroutine :: "run_env \<Rightarrow> goroutine \<Rightarrow> world \<Rightarrow> world" where
  "run_goroutine env g w =
     (case g of
        GoWatchManager \<Rightarrow>
          (case watch_Run env of StillRunning \<Rightarrow> w | Returned _ \<Rightarrow> w\<lparr>wg := wg w - 1\<rparr>)
      | GoAccept \<Rightarrow> w\<lparr>wg := wg w - 1\<rparr>
      | GoIOThread thread \<Rightarrow> startIOThread w thread (thread_Start env (thread_id thread))
      | GoCommandHandler h \<Rightarrow> startCommandHandler w h (handler_Start env (handler_id h)))"

text \<open>Lines 88-105: the wait group is created, the watch goroutine is launched when
  the subscription channel is not nil, then the accept goroutine.\<close>

definition Run_spawn :: "Server \<Rightarrow> world \<Rightarrow> world" where
  "Run_spawn s w =
     (let w2 = w\<lparr>wg := 0\<rparr>;
          w3 = (if cmdWatchSubscriptionChan s \<noteq> None
                then w2\<lparr>wg := wg w2 + 1, goroutines := goroutines w2 @ [GoWatchManager]\<rparr>
                else w2)
      in w3\<lparr>wg := wg w3 + 1, goroutines := goroutines w3 @ [GoAccept]\<rparr>)"

text \<open>
  \<^verbatim>\<open>Run\<close>. \<open>None\<close>: the call does not return (the accept loop is still polling, the
  select blocks, or \<^verbatim>\<open>wg.Wait()\<close> waits for a goroutine that has not called
  \<^verbatim>\<open>wg.Done()\<close>). The goroutines launched by this call have run as far as the
  environment says when \<^verbatim>\<open>wg.Wait()\<close> is reached; the deferred
  \<^verbatim>\<open>ReleasePort\<close> runs last.
\<close>

definition Run :: "run_env \<Rightarrow> Server \<Rightarrow> world \<Rightarrow> (error option \<times> Server \<times> world) option" where
  "Run env s w =
     (case BindAndListen (sys env) s w of
        (Some e, s1, w1) \<Rightarrow> Some (Some e, s1, w1)
      | (None, s1, w1) \<Rightarrow>
          (case AcceptConnectionRequests s1 (accepts env) (Run_spawn s1 w1) of
             None \<Rightarrow> None
           | Some (aerr, w5) \<Rightarrow>
               let errChan = map_option (Errorf ''failed to accept connections '') aerr in
               (case Run_select (select_fires env) errChan None of
                  None \<Rightarrow> None
                | Some err \<Rightarrow>
                    (case Shutdown (s1, w5) of (s2, w6) \<Rightarrow>
                       let launched = drop (length (goroutines w1)) (goroutines w6);
                           w7 = fold (run_goroutine env) launched w6
                       in if wg w7 = 0 then Some (err, s2, ReleasePort s2 w7) else None))))"

subsection \<open>A call of \<^verbatim>\<open>Run\<close> that has not returned\<close>

text \<open>
  The state the accept loop is in when it returns or when its script ends: the same
  iterations as \<^verbatim>\<open>AcceptConnectionRequests\<close> above, keeping the state where that
  keeps the result.
\<close>

fun AcceptConnectionRequests_state :: "Server \<Rightarrow> accept_event list \<Rightarrow> world \<Rightarrow> world" where
  "AcceptConnectionRequests_state s [] w = w"
| "AcceptConnectionRequests_state s (CtxDone e # evs) w = w"
| "AcceptConnectionRequests_state s (AcceptErr e # evs) w =
     (if e = EAGAIN \<or> e = EWOULDBLOCK then AcceptConnectionRequests_state s evs w else w)"
| "AcceptConnectionRequests_state s (Accepted clientFD ioErr now1 now2 # evs) w =
     (case ioErr of
        Some e \<Rightarrow> w
      | None \<Rightarrow>
          AcceptConnectionRequests_state s evs (AcceptConnectionRequests_conn s clientFD now1 now2 w))"

text \<open>
  Where a call of \<^verbatim>\<open>Run\<close> stands: it has returned (with its result), or it has not:
  the accept loop is still polling, the select blocks, or \<^verbatim>\<open>wg.Wait()\<close> waits.
\<close>

datatype run_point =
    HasReturned "error option"
  | AcceptLoopPolling
  | SelectBlocks
  | WaitBlocks

text \<open>
  \<^verbatim>\<open>Run\<close> once more, statement by statement as above, with the point the call has
  reached and the server and shared state there, so that a call that has not returned
  still shows what it has done. \<open>Run\<close> above is this function at \<open>HasReturned\<close>.
\<close>

definition Run_reaches :: "run_env \<Rightarrow> Server \<Rightarrow> world \<Rightarrow> run_point \<times> Server \<times> world" where
  "Run_reaches env s w =
     (case BindAndListen (sys env) s w of
        (Some e, s1, w1) \<Rightarrow> (HasReturned (Some e), s1, w1)
      | (None, s1, w1) \<Rightarrow>
          (case AcceptConnectionRequests s1 (accepts env) (Run_spawn s1 w1) of
             None \<Rightarrow>
               (AcceptLoopPolling, s1,
                AcceptConnectionRequests_state s1 (accepts env) (Run_spawn s1 w1))
           | Some (aerr, w5) \<Rightarrow>
               let errChan = map_option (Errorf ''failed to accept connections '') aerr in
               (case Run_select (select_fires env) errChan None of
                  None \<Rightarrow> (SelectBlocks, s1, w5)
                | Some err \<Rightarrow>
                    (case Shutdown (s1, w5) of (s2, w6) \<Rightarrow>
                       let launched = drop (length (goroutines w1)) (goroutines w6);
                           w7 = fold (run_goroutine env) launched w6
                       in if wg w7 = 0 then (HasReturned err, s2, ReleasePort s2 w7)
                          else (WaitBlocks, s2, w7)))))"

text \<open>
  Modelled from the spec: the package \<^verbatim>\<open>watchmanager\<close> (\<^verbatim>\<open>Manager.Run\<close>) is
  not among the sources. The spec's Watch Manager is a single long-lived task that runs
  for the whole server lifetime and whose suspensions are interrupted by the governing
  cancellation signal: \<^verbatim>\<open>watchManager.Run(ctx)\<close> is still running while \<^verbatim>\<open>ctx\<close>
  is not cancelled, and has returned (nil) once it is.
\<close>

definition watchManager_Run :: "bool \<Rightarrow> outcome" where
  "watchManager_Run cancelled = (if cancelled then Returned None else StillRunning)"

subsection \<open>Concrete servers, states and environments\<close>

text \<open>A server on 127.0.0.1:7379 without a watch-subscription channel, and one with.\<close>

definition srv :: Server where
  "srv = \<lparr>Host = ''127.0.0.1'', Port = 7379, serverFD = 0, connBacklogSize = 128,
     shardManager = 0, watchManager = 0, cmdWatchSubscriptionChan = None,
     globalErrorChan = None, wl = 0\<rparr>"

definition srv_watch :: Server where
  "srv_watch = srv\<lparr>cmdWatchSubscriptionChan := Some 0\<rparr>"

text \<open>A fresh process: counters at zero, empty registries, nothing closed or launched.\<close>

definition fresh :: world where
  "fresh = \<lparr>ioThreadCounter = 0, cmdHandlerCounter = 0, startTime = 0,
     ioThreadManager = Map.empty, cmdHandlerManager = Map.empty,
     closeCalls = [], goroutines = [], wg = 0\<rparr>"

text \<open>Every system call succeeds, the socket is descriptor 3, and only
  \<^verbatim>\<open>"127.0.0.1"\<close> parses (to its 16-byte form).\<close>

definition sys_ok :: bind_sys where
  "sys_ok = \<lparr>Socket = Inr 3, SetsockoptInt = None, SetNonblock = None,
     ParseIP = (\<lambda>h. if h = ''127.0.0.1''
        then Some (0, 0, 0, 0, [0, 0, 0, 0, 0, 0, 255, 255, 127, 0, 0, 1]) else None),
     Bind = (\<lambda>port addr. None), Listen = (\<lambda>backlog. None)\<rparr>"

text \<open>One client connects (descriptor 7) and stays connected; then
  \<^verbatim>\<open>syscall.Accept\<close> fails with \<^verbatim>\<open>EMFILE\<close> (24). The context is never
  cancelled, so the workers' \<^verbatim>\<open>Start\<close> calls have not returned.\<close>

definition env_fatal :: run_env where
  "env_fatal = \<lparr>sys = sys_ok, accepts = [Accepted 7 None 0 0, AcceptErr 24],
     thread_Start = (\<lambda>i. StillRunning), handler_Start = (\<lambda>i. StillRunning),
     watch_Run = StillRunning, select_fires = CaseErrChan\<rparr>"

text \<open>One client connects; then the context is cancelled. \<^verbatim>\<open>Run\<close>'s select fires
  on \<^verbatim>\<open>ctx.Done()\<close> and \<^verbatim>\<open>Run\<close> gets through \<^verbatim>\<open>wg.Wait()\<close> before the
  workers' \<^verbatim>\<open>Start\<close> calls return.\<close>

definition env_cancel :: run_env where
  "env_cancel = \<lparr>sys = sys_ok, accepts = [Accepted 7 None 0 0, CtxDone Canceled],
     thread_Start = (\<lambda>i. StillRunning), handler_Start = (\<lambda>i. StillRunning),
     watch_Run = Returned None, select_fires = CaseCtxDone\<rparr>"

text \<open>No client at all: the context is cancelled, the accept loop returns
  \<^verbatim>\<open>ctx.Err()\<close> and has sent it on \<^verbatim>\<open>errChan\<close> when \<^verbatim>\<open>Run\<close>'s select, with
  both cases ready, takes the error channel.\<close>

definition env_cancel_race :: run_env where
  "env_cancel_race = \<lparr>sys = sys_ok, accepts = [CtxDone Canceled],
     thread_Start = (\<lambda>i. Returned None), handler_Start = (\<lambda>i. Returned None),
     watch_Run = Returned None, select_fires = CaseErrChan\<rparr>"

text \<open>A state in which the command-handler registry already holds the identity the next
  connection will be given.\<close>

definition taken :: world where
  "taken = fresh\<lparr>cmdHandlerManager := [''C-0-1'' \<mapsto> \<lparr>handler_id = ''C-0-1''\<rparr>]\<rparr>"

text \<open>The same server configured with a host name that is not an IP address.\<close>

definition srv_badhost :: Server where
  "srv_badhost = srv\<lparr>Host := ''localhost''\<rparr>"

text \<open>The handler of the first client (descriptor 7) cannot be created; a second client
  (descriptor 8) is waiting; the context is cancelled only later.\<close>

definition env_bad_client :: run_env where
  "env_bad_client = \<lparr>sys = sys_ok,
     accepts = [Accepted 7 (Some (IOHandlerErr 1)) 0 0, Accepted 8 None 0 0, CtxDone Canceled],
     thread_Start = (\<lambda>i. StillRunning), handler_Start = (\<lambda>i. StillRunning),
     watch_Run = StillRunning, select_fires = CaseErrChan\<rparr>"

subsection \<open>Notions used in the proofs\<close>

text \<open>The goroutines of a connection, and the goroutines that have called
  \<^verbatim>\<open>wg.Done()\<close> when \<^verbatim>\<open>Run\<close> waits.\<close>

definition is_worker :: "goroutine \<Rightarrow> bool" where
  "is_worker g = (case g of GoIOThread _ \<Rightarrow> True | GoCommandHandler _ \<Rightarrow> True | _ \<Rightarrow> False)"

definition calls_Done :: "run_env \<Rightarrow> goroutine \<Rightarrow> bool" where
  "calls_Done env g = (case g of GoWatchManager \<Rightarrow> watch_Run env \<noteq> StillRunning | _ \<Rightarrow> True)"

section \<open>Identities are read back from their text\<close>

lemma of_char_digit: "d < 10 \<Longrightarrow> (of_char (digit d) :: nat) = 48 + d"
  by (simp add: digit_def)

lemma digit_inj: "a < 10 \<Longrightarrow> b < 10 \<Longrightarrow> digit a = digit b \<Longrightarrow> a = b"
proof -
  assume a: "a < 10" and b: "b < 10" and e: "digit a = digit b"
  from e have "(of_char (digit a) :: nat) = of_char (digit b)" by simp
  with a b show "a = b" by (simp add: of_char_digit)
qed

lemma digit_not_dash: "d < 10 \<Longrightarrow> digit d \<noteq> CHR ''-''"
proof
  assume d: "d < 10" and e: "digit d = CHR ''-''"
  from e have "(of_char (digit d) :: nat) = of_char (CHR ''-'')" by simp
  with d show False by (simp add: of_char_digit)
qed

lemma rdigits_no_dash: "CHR ''-'' \<notin> set (rdigits n)"
proof (induction n rule: rdigits.induct)
  case (1 n)
  show ?case
  proof (cases "n < 10")
    case True
    then show ?thesis using digit_not_dash [of n] by (simp add: rdigits.simps [of n])
  next
    case False
    then show ?thesis using 1 digit_not_dash [of "n mod 10"]
      by (simp add: rdigits.simps [of n])
  qed
qed

lemma rdigits_tl_nonempty: "\<not> n < 10 \<Longrightarrow> rdigits (n div 10) \<noteq> []"
  by (simp add: rdigits.simps [of "n div 10"])

lemma rdigits_inj: "rdigits a = rdigits b \<Longrightarrow> a = b"
proof (induction a arbitrary: b rule: rdigits.induct)
  case (1 n)
  show ?case
  proof (cases "n < 10")
    case small: True
    show ?thesis
    proof (cases "b < 10")
      case True
      with small 1(2) show ?thesis
        by (simp add: rdigits.simps [of n] rdigits.simps [of b] digit_inj)
    next
      case False
      with small 1(2) rdigits_tl_nonempty [of b] show ?thesis
        by (simp add: rdigits.simps [of n] rdigits.simps [of b])
    qed
  next
    case big: False
    show ?thesis
    proof (cases "b < 10")
      case True
      with big 1(2) rdigits_tl_nonempty [of n] show ?thesis
        by (simp add: rdigits.simps [of n] rdigits.simps [of b])
    next
      case False
      with big 1(2) have d: "digit (n mod 10) = digit (b mod 10)"
        and r: "rdigits (n div 10) = rdigits (b div 10)"
        by (simp_all add: rdigits.simps [of n] rdigits.simps [of b])
      from d have "n mod 10 = b mod 10" by (simp add: digit_inj)
      moreover from r big have "n div 10 = b div 10" by (rule 1(1) [rotated])
      ultimately show ?thesis by (metis div_mult_mod_eq)
    qed
  qed
qed

lemma fmt_uint_inj: "fmt_uint a = fmt_uint b \<Longrightarrow> a = b"
  by (simp add: fmt_uint_def rdigits_inj)

lemma fmt_uint_no_dash: "CHR ''-'' \<notin> set (fmt_uint n)"
  by (simp add: fmt_uint_def rdigits_no_dash)

lemma first_field_eq:
  "c \<notin> set u \<Longrightarrow> c \<notin> set v \<Longrightarrow> u @ c # r = v @ c # r' \<Longrightarrow> u = v"
proof (induction u arbitrary: v)
  case Nil
  then show ?case by (cases v) auto
next
  case (Cons a u)
  then show ?case by (cases v) auto
qed

lemma last_field_eq:
  assumes "c \<notin> set u" and "c \<notin> set v" and "x @ c # u = y @ c # v"
  shows "u = v"
proof -
  from assms(3) have "rev (x @ c # u) = rev (y @ c # v)" by simp
  then have "rev u @ c # rev x = rev v @ c # rev y" by simp
  moreover from assms(1,2) have "c \<notin> set (rev u)" "c \<notin> set (rev v)" by simp_all
  ultimately have "rev u = rev v" by (rule first_field_eq [rotated 2])
  then show ?thesis by simp
qed

text \<open>The count can be read off an identity: it is the field after the last dash.\<close>

lemma Sprintf_id_count:
  assumes "Sprintf_id pre t1 c1 = Sprintf_id pre t2 c2"
  shows "c1 = c2"
proof -
  from assms have "fmt_int (sint t1) @ CHR ''-'' # fmt_uint (unat c1)
      = fmt_int (sint t2) @ CHR ''-'' # fmt_uint (unat c2)"
    by (simp add: Sprintf_id_def)
  then have "fmt_uint (unat c1) = fmt_uint (unat c2)"
    by (rule last_field_eq [OF fmt_uint_no_dash fmt_uint_no_dash])
  then have "unat c1 = unat c2" by (rule fmt_uint_inj)
  then show ?thesis by (simp add: word_unat_eq_iff)
qed

lemma length_issued: "length (issued pre c st nows) = length nows"
  by (induction nows arbitrary: c) (simp_all add: GenerateUniqueID_def Let_def)

lemma issued_nth:
  "i < length nows \<Longrightarrow>
     issued pre c st nows ! i = Sprintf_id pre (nows ! i - st) (c + 1 + of_nat i)"
proof (induction nows arbitrary: c i)
  case Nil
  then show ?case by simp
next
  case (Cons now nows)
  show ?case
  proof (cases i)
    case 0
    then show ?thesis by (simp add: GenerateUniqueID_def Let_def)
  next
    case (Suc j)
    with Cons.prems have "j < length nows" by simp
    from Cons.IH [OF this, of "c + 1"] Suc show ?thesis
      by (simp add: GenerateUniqueID_def Let_def ac_simps)
  qed
qed

section \<open>What the accept loop leaves alone\<close>

lemma conn_closeCalls:
  "closeCalls (AcceptConnectionRequests_conn s fd n1 n2 w) = closeCalls w"
  by (simp add: AcceptConnectionRequests_conn_def GenerateUniqueIOThreadID_def
      GenerateUniqueCommandHandlerID_def Let_def split: prod.splits sum.splits)

lemma conn_goroutines:
  "\<exists>gs. goroutines (AcceptConnectionRequests_conn s fd n1 n2 w) = goroutines w @ gs
     \<and> wg (AcceptConnectionRequests_conn s fd n1 n2 w) = wg w + int (length gs)
     \<and> list_all is_worker gs"
  by (simp add: AcceptConnectionRequests_conn_def GenerateUniqueIOThreadID_def
      GenerateUniqueCommandHandlerID_def Let_def is_worker_def split: prod.splits sum.splits)

lemma loop_frame:
  "AcceptConnectionRequests s evs w = Some (r, w') \<Longrightarrow>
     closeCalls w' = closeCalls w \<and> r \<noteq> None \<and>
     (\<exists>gs. goroutines w' = goroutines w @ gs \<and> wg w' = wg w + int (length gs)
        \<and> list_all is_worker gs)"
proof (induction s evs w rule: AcceptConnectionRequests.induct)
  case (1 s w)
  then show ?case by simp
next
  case (2 s e evs w)
  then show ?case by auto
next
  case (3 s e evs w)
  then show ?case by (auto split: if_splits)
next
  case (4 s clientFD ioErr now1 now2 evs w)
  show ?case
  proof (cases ioErr)
    case (Some e)
    with 4(2) show ?thesis by auto
  next
    case None
    let ?w1 = "AcceptConnectionRequests_conn s clientFD now1 now2 w"
    from None 4(2) have run: "AcceptConnectionRequests s evs ?w1 = Some (r, w')" by simp
    from 4(1) [OF None run] obtain gs where
      a: "closeCalls w' = closeCalls ?w1" "r \<noteq> None"
      "goroutines w' = goroutines ?w1 @ gs" "wg w' = wg ?w1 + int (length gs)"
      "list_all is_worker gs" by blast
    from conn_goroutines [of s clientFD now1 now2 w] obtain hs where
      b: "goroutines ?w1 = goroutines w @ hs" "wg ?w1 = wg w + int (length hs)"
      "list_all is_worker hs" by blast
    from a b have "goroutines w' = goroutines w @ (hs @ gs)"
      "wg w' = wg w + int (length (hs @ gs))" "list_all is_worker (hs @ gs)" by simp_all
    with a(1,2) conn_closeCalls [of s clientFD now1 now2 w] show ?thesis by metis
  qed
qed

section \<open>Goroutines and the wait group\<close>

lemma run_goroutine_frame:
  "closeCalls (run_goroutine env g w) = closeCalls w \<and>
   goroutines (run_goroutine env g w) = goroutines w \<and>
   wg (run_goroutine env g w) = wg w - (if calls_Done env g then 1 else 0)"
  by (simp add: run_goroutine_def startIOThread_def startCommandHandler_def calls_Done_def Let_def
      split: goroutine.splits outcome.splits sum.splits)

lemma fold_run_goroutine_frame:
  "closeCalls (fold (run_goroutine env) gs w) = closeCalls w \<and>
   goroutines (fold (run_goroutine env) gs w) = goroutines w \<and>
   wg (fold (run_goroutine env) gs w) = wg w - int (length (filter (calls_Done env) gs))"
proof (induction gs arbitrary: w)
  case Nil
  show ?case by simp
next
  case (Cons g gs)
  show ?case using Cons [of "run_goroutine env g w"] run_goroutine_frame [of env g w]
    by simp
qed

lemma workers_call_Done: "list_all is_worker gs \<Longrightarrow> filter (calls_Done env) gs = gs"
  by (induction gs) (auto simp: is_worker_def calls_Done_def split: goroutine.splits)

lemma workers_no_watch: "list_all is_worker gs \<Longrightarrow> GoWatchManager \<notin> set gs"
  by (induction gs) (auto simp: is_worker_def)

section \<open>The bind\<close>

lemma BindAndListen_success:
  "BindAndListen b s w = (None, s1, w1) \<Longrightarrow>
     w1 = w \<and> Socket b = Inr (serverFD s1) \<and> s1 = s\<lparr>serverFD := serverFD s1\<rparr>"
  by (auto simp: BindAndListen_def BindAndListen_body_def
      split: sum.splits option.splits prod.splits if_splits)

section \<open>The shape of a call of Run\<close>

lemma Run_spawn_frame:
  "closeCalls (Run_spawn s w) = closeCalls w \<and>
   goroutines (Run_spawn s w) =
     goroutines w @ (if cmdWatchSubscriptionChan s \<noteq> None then [GoWatchManager] else []) @ [GoAccept] \<and>
   wg (Run_spawn s w) = (if cmdWatchSubscriptionChan s \<noteq> None then 2 else 1)"
  by (simp add: Run_spawn_def Let_def)

lemma Run_after_bind:
  assumes B: "BindAndListen (sys env) s w = (None, s1, w1)"
    and A: "AcceptConnectionRequests s1 (accepts env) (Run_spawn s1 w1) = Some (aerr, w5)"
  shows "Run env s w =
     (if cmdWatchSubscriptionChan s1 \<noteq> None \<and> watch_Run env = StillRunning then None
      else Some (case select_fires env of
                   CaseCtxDone \<Rightarrow> None
                 | CaseErrChan \<Rightarrow> map_option (Errorf ''failed to accept connections '') aerr,
                 s1,
                 ReleasePort s1
                   (fold (run_goroutine env) (drop (length (goroutines w)) (goroutines w5)) w5)))"
proof -
  from B have w1: "w1 = w" by (simp add: BindAndListen_success)
  from loop_frame [OF A] obtain gs where
    f: "aerr \<noteq> None" "goroutines w5 = goroutines (Run_spawn s1 w1) @ gs"
    "wg w5 = wg (Run_spawn s1 w1) + int (length gs)" "list_all is_worker gs" by blast
  let ?watch = "if cmdWatchSubscriptionChan s1 \<noteq> None then [GoWatchManager] else []"
  let ?launched = "drop (length (goroutines w)) (goroutines w5)"
  from f(2) w1 have l: "?launched = ?watch @ [GoAccept] @ gs"
    by (simp add: Run_spawn_frame)
  have d: "length (filter (calls_Done env) ?launched)
      = (if cmdWatchSubscriptionChan s1 \<noteq> None \<and> watch_Run env \<noteq> StillRunning then 1 else 0)
        + 1 + length gs"
    unfolding l using workers_call_Done [OF f(4), of env] by (simp add: calls_Done_def)
  have wgf: "wg (fold (run_goroutine env) ?launched w5)
      = (if cmdWatchSubscriptionChan s1 \<noteq> None \<and> watch_Run env = StillRunning then 1 else 0)"
    using f(3) d by (simp add: fold_run_goroutine_frame Run_spawn_frame)
  from f(1) obtain e where e: "aerr = Some e" by blast
  have sel: "Run_select (select_fires env) (map_option (Errorf ''failed to accept connections '') aerr) None
      = Some (case select_fires env of
                   CaseCtxDone \<Rightarrow> None
                 | CaseErrChan \<Rightarrow> map_option (Errorf ''failed to accept connections '') aerr)"
    using e by (simp add: Run_select_def split: select_case.splits)
  show ?thesis
    using B A w1 wgf sel by (simp add: Run_def Shutdown_def Let_def)
qed

lemma Run_bind_failure:
  "BindAndListen (sys env) s w = (Some e, s1, w1) \<Longrightarrow> Run env s w = Some (Some e, s1, w1)"
  by (simp add: Run_def)

lemma Run_accept_pending:
  "BindAndListen (sys env) s w = (None, s1, w1) \<Longrightarrow>
   AcceptConnectionRequests s1 (accepts env) (Run_spawn s1 w1) = None \<Longrightarrow> Run env s w = None"
  by (simp add: Run_def)

lemma BindAndListen_error_keeps_server:
  "BindAndListen b s w = (Some e, s1, w1) \<Longrightarrow> s1 = s"
  by (auto simp: BindAndListen_def BindAndListen_body_def
      split: sum.splits option.splits prod.splits if_splits)

lemma BindAndListen_syscall_failure_closes:
  "Socket b = Inr fd \<Longrightarrow> BindAndListen b s w = (Some e, s1, w1) \<Longrightarrow> e \<noteq> ErrInvalidIPAddress
     \<Longrightarrow> w1 = w\<lparr>closeCalls := closeCalls w @ [fd]\<rparr>"
  by (auto simp: BindAndListen_def BindAndListen_body_def
      split: sum.splits option.splits prod.splits if_splits)

lemma BindAndListen_invalid_address:
  "Socket b = Inr fd \<Longrightarrow> SetsockoptInt b = None \<Longrightarrow> SetNonblock b = None
     \<Longrightarrow> ParseIP b (Host s) = None
     \<Longrightarrow> BindAndListen b s w = (Some ErrInvalidIPAddress, s, w)"
  by (simp add: BindAndListen_def BindAndListen_body_def)

lemma accept_loop_exits:
  "AcceptConnectionRequests s evs w = Some (r, w') \<Longrightarrow>
     (\<exists>e. CtxDone e \<in> set evs \<and> r = Some e)
   \<or> (\<exists>e. AcceptErr e \<in> set evs \<and> e \<noteq> EAGAIN \<and> e \<noteq> EWOULDBLOCK
          \<and> r = Some (Errorf ''error accepting connection: '' (Errno e)))
   \<or> (\<exists>fd e now1 now2. Accepted fd (Some e) now1 now2 \<in> set evs \<and> r = Some e)"
proof (induction s evs w rule: AcceptConnectionRequests.induct)
  case (1 s w)
  then show ?case by simp
next
  case (2 s e evs w)
  then show ?case by auto
next
  case (3 s e evs w)
  show ?case
  proof (cases "e = EAGAIN \<or> e = EWOULDBLOCK")
    case True
    with 3(2) have "AcceptConnectionRequests s evs w = Some (r, w')" by simp
    from 3(1) [OF True this] show ?thesis by auto
  next
    case False
    with 3(2) show ?thesis by auto
  qed
next
  case (4 s clientFD ioErr now1 now2 evs w)
  show ?case
  proof (cases ioErr)
    case None
    with 4(2) have "AcceptConnectionRequests s evs
        (AcceptConnectionRequests_conn s clientFD now1 now2 w) = Some (r, w')" by simp
    from 4(1) [OF None this] show ?thesis by auto
  next
    case (Some e)
    with 4(2) have "r = Some e" by simp
    with Some show ?thesis by auto
  qed
qed

lemma Run_ignores_worker_results:
  "map_option fst (Run (env\<lparr>thread_Start := f, handler_Start := g\<rparr>) s w)
     = map_option fst (Run env s w)"
proof -
  let ?env = "env\<lparr>thread_Start := f, handler_Start := g\<rparr>"
  obtain berr s1 w1 where B: "BindAndListen (sys env) s w = (berr, s1, w1)"
    by (cases "BindAndListen (sys env) s w") auto
  then have B': "BindAndListen (sys ?env) s w = (berr, s1, w1)" by simp
  show ?thesis
  proof (cases berr)
    case (Some e)
    with B B' show ?thesis by (simp add: Run_bind_failure)
  next
    case None
    show ?thesis
    proof (cases "AcceptConnectionRequests s1 (accepts env) (Run_spawn s1 w1)")
      case pending: None
      from B B' None pending show ?thesis by (simp add: Run_accept_pending)
    next
      case (Some a)
      then obtain aerr w5 where
        A: "AcceptConnectionRequests s1 (accepts env) (Run_spawn s1 w1) = Some (aerr, w5)"
        by (cases a) auto
      then have A': "AcceptConnectionRequests s1 (accepts ?env) (Run_spawn s1 w1) = Some (aerr, w5)"
        by simp
      from B None have Bn: "BindAndListen (sys env) s w = (None, s1, w1)" by simp
      from B' None have Bn': "BindAndListen (sys ?env) s w = (None, s1, w1)" by simp
      show ?thesis
        by (simp add: Run_after_bind [OF Bn A] Run_after_bind [OF Bn' A'])
    qed
  qed
qed

text \<open>When the io-thread is registered and the command handler is rejected, the
  io-thread stays registered and no goroutine is started.\<close>

lemma partial_registration_stays:
  "ioThreadManager (AcceptConnectionRequests_conn srv 7 0 0 taken) ''I-0-1''
     = Some \<lparr>thread_id = ''I-0-1'', thread_conn = 7\<rparr>
   \<and> goroutines (AcceptConnectionRequests_conn srv 7 0 0 taken) = []"
  by code_simp

section \<open>A call of Run, returned or not\<close>

lemma state_when_returned:
  "AcceptConnectionRequests s evs w = Some (r, w') \<Longrightarrow> AcceptConnectionRequests_state s evs w = w'"
  by (induction s evs w rule: AcceptConnectionRequests.induct)
     (auto split: if_splits option.splits)

lemma state_frame:
  "closeCalls (AcceptConnectionRequests_state s evs w) = closeCalls w \<and>
   (\<exists>gs. goroutines (AcceptConnectionRequests_state s evs w) = goroutines w @ gs
      \<and> list_all is_worker gs)"
proof (induction s evs w rule: AcceptConnectionRequests_state.induct)
  case (1 s w)
  show ?case by simp
next
  case (2 s e evs w)
  show ?case by simp
next
  case (3 s e evs w)
  then show ?case by simp
next
  case (4 s clientFD ioErr now1 now2 evs w)
  show ?case
  proof (cases ioErr)
    case (Some e)
    then show ?thesis by simp
  next
    case None
    let ?w1 = "AcceptConnectionRequests_conn s clientFD now1 now2 w"
    from 4 [OF None] obtain gs where
      a: "closeCalls (AcceptConnectionRequests_state s evs ?w1) = closeCalls ?w1"
      "goroutines (AcceptConnectionRequests_state s evs ?w1) = goroutines ?w1 @ gs"
      "list_all is_worker gs" by blast
    from conn_goroutines [of s clientFD now1 now2 w] obtain hs where
      b: "goroutines ?w1 = goroutines w @ hs" "list_all is_worker hs" by blast
    from a b have "goroutines (AcceptConnectionRequests_state s evs ?w1) = goroutines w @ (hs @ gs)"
      "list_all is_worker (hs @ gs)" by simp_all
    with a(1) conn_closeCalls [of s clientFD now1 now2 w] None show ?thesis
      by (simp del: append_assoc)
  qed
qed

lemma Run_reaches_bind_failure:
  "BindAndListen (sys env) s w = (Some e, s1, w1) \<Longrightarrow>
     Run_reaches env s w = (HasReturned (Some e), s1, w1)"
  by (simp add: Run_reaches_def)

lemma Run_reaches_polling:
  "BindAndListen (sys env) s w = (None, s1, w1) \<Longrightarrow>
   AcceptConnectionRequests s1 (accepts env) (Run_spawn s1 w1) = None \<Longrightarrow>
     Run_reaches env s w =
       (AcceptLoopPolling, s1, AcceptConnectionRequests_state s1 (accepts env) (Run_spawn s1 w1))"
  by (simp add: Run_reaches_def)

lemma Run_reaches_after_bind:
  assumes B: "BindAndListen (sys env) s w = (None, s1, w1)"
    and A: "AcceptConnectionRequests s1 (accepts env) (Run_spawn s1 w1) = Some (aerr, w5)"
  shows "Run_reaches env s w =
     (if cmdWatchSubscriptionChan s1 \<noteq> None \<and> watch_Run env = StillRunning
      then (WaitBlocks, s1,
            fold (run_goroutine env) (drop (length (goroutines w)) (goroutines w5)) w5)
      else (HasReturned (case select_fires env of
                   CaseCtxDone \<Rightarrow> None
                 | CaseErrChan \<Rightarrow> map_option (Errorf ''failed to accept connections '') aerr),
            s1,
            ReleasePort s1
              (fold (run_goroutine env) (drop (length (goroutines w)) (goroutines w5)) w5)))"
proof -
  from B have w1: "w1 = w" by (simp add: BindAndListen_success)
  from loop_frame [OF A] obtain gs where
    f: "aerr \<noteq> None" "goroutines w5 = goroutines (Run_spawn s1 w1) @ gs"
    "wg w5 = wg (Run_spawn s1 w1) + int (length gs)" "list_all is_worker gs" by blast
  let ?watch = "if cmdWatchSubscriptionChan s1 \<noteq> None then [GoWatchManager] else []"
  let ?launched = "drop (length (goroutines w)) (goroutines w5)"
  from f(2) w1 have l: "?launched = ?watch @ [GoAccept] @ gs"
    by (simp add: Run_spawn_frame)
  have d: "length (filter (calls_Done env) ?launched)
      = (if cmdWatchSubscriptionChan s1 \<noteq> None \<and> watch_Run env \<noteq> StillRunning then 1 else 0)
        + 1 + length gs"
    unfolding l using workers_call_Done [OF f(4), of env] by (simp add: calls_Done_def)
  have wgf: "wg (fold (run_goroutine env) ?launched w5)
      = (if cmdWatchSubscriptionChan s1 \<noteq> None \<and> watch_Run env = StillRunning then 1 else 0)"
    using f(3) d by (simp add: fold_run_goroutine_frame Run_spawn_frame)
  from f(1) obtain e where e: "aerr = Some e" by blast
  have sel: "Run_select (select_fires env) (map_option (Errorf ''failed to accept connections '') aerr) None
      = Some (case select_fires env of
                   CaseCtxDone \<Rightarrow> None
                 | CaseErrChan \<Rightarrow> map_option (Errorf ''failed to accept connections '') aerr)"
    using e by (simp add: Run_select_def split: select_case.splits)
  show ?thesis
    using B A w1 wgf sel by (simp add: Run_reaches_def Shutdown_def Let_def)
qed

lemma Run_is_Run_reaches:
  "Run env s w =
     (case Run_reaches env s w of
        (HasReturned r, s', w') \<Rightarrow> Some (r, s', w')
      | (AcceptLoopPolling, s', w') \<Rightarrow> None
      | (SelectBlocks, s', w') \<Rightarrow> None
      | (WaitBlocks, s', w') \<Rightarrow> None)"
  by (simp add: Run_def Run_reaches_def Let_def
      split: prod.splits option.splits if_splits)

lemma BindAndListen_goroutines:
  "BindAndListen b s w = (r, s1, w1) \<Longrightarrow> goroutines w1 = goroutines w"
  by (auto simp: BindAndListen_def BindAndListen_body_def
      split: sum.splits option.splits prod.splits if_splits)

lemma BindAndListen_chan:
  "BindAndListen b s w = (r, s1, w1) \<Longrightarrow> cmdWatchSubscriptionChan s1 = cmdWatchSubscriptionChan s"
  by (auto simp: BindAndListen_def BindAndListen_body_def
      split: sum.splits option.splits prod.splits if_splits)

lemma Run_reaches_cases:
  assumes B: "BindAndListen (sys env) s w = (None, s1, w1)"
  obtains (polling)
      "AcceptConnectionRequests s1 (accepts env) (Run_spawn s1 w1) = None"
      "Run_reaches env s w =
         (AcceptLoopPolling, s1, AcceptConnectionRequests_state s1 (accepts env) (Run_spawn s1 w1))"
      "Run env s w = None"
  | (waiting) aerr w5 where
      "AcceptConnectionRequests s1 (accepts env) (Run_spawn s1 w1) = Some (aerr, w5)"
      "cmdWatchSubscriptionChan s1 \<noteq> None" "watch_Run env = StillRunning"
      "Run_reaches env s w = (WaitBlocks, s1,
         fold (run_goroutine env) (drop (length (goroutines w)) (goroutines w5)) w5)"
      "Run env s w = None"
  | (returned) aerr w5 where
      "AcceptConnectionRequests s1 (accepts env) (Run_spawn s1 w1) = Some (aerr, w5)"
      "cmdWatchSubscriptionChan s1 = None \<or> watch_Run env \<noteq> StillRunning"
      "Run_reaches env s w =
         (HasReturned (case select_fires env of
                   CaseCtxDone \<Rightarrow> None
                 | CaseErrChan \<Rightarrow> map_option (Errorf ''failed to accept connections '') aerr),
          s1,
          ReleasePort s1
            (fold (run_goroutine env) (drop (length (goroutines w)) (goroutines w5)) w5))"
      "Run env s w =
         Some (case select_fires env of
                   CaseCtxDone \<Rightarrow> None
                 | CaseErrChan \<Rightarrow> map_option (Errorf ''failed to accept connections '') aerr,
          s1,
          ReleasePort s1
            (fold (run_goroutine env) (drop (length (goroutines w)) (goroutines w5)) w5))"
proof (cases "AcceptConnectionRequests s1 (accepts env) (Run_spawn s1 w1)")
  case None
  with B polling show ?thesis by (simp add: Run_reaches_polling Run_accept_pending)
next
  case (Some a)
  then obtain aerr w5 where
    A: "AcceptConnectionRequests s1 (accepts env) (Run_spawn s1 w1) = Some (aerr, w5)"
    by (cases a) auto
  show ?thesis
  proof (cases "cmdWatchSubscriptionChan s1 \<noteq> None \<and> watch_Run env = StillRunning")
    case True
    with A waiting [of aerr w5] Run_reaches_after_bind [OF B A] Run_after_bind [OF B A]
    show ?thesis by simp
  next
    case False
    with A returned [of aerr w5] Run_reaches_after_bind [OF B A] Run_after_bind [OF B A]
    show ?thesis by auto
  qed
qed

lemma reached_frame:
  assumes A: "AcceptConnectionRequests s1 evs (Run_spawn s1 w) = Some (aerr, w5)"
  shows "closeCalls (fold (run_goroutine env) gl w5) = closeCalls w"
    and "\<exists>gs. goroutines (fold (run_goroutine env) gl w5) =
           goroutines w @ (if cmdWatchSubscriptionChan s1 \<noteq> None then [GoWatchManager] else [])
             @ [GoAccept] @ gs \<and> list_all is_worker gs"
proof -
  from loop_frame [OF A] obtain gs where
    f: "closeCalls w5 = closeCalls (Run_spawn s1 w)"
    "goroutines w5 = goroutines (Run_spawn s1 w) @ gs" "list_all is_worker gs" by blast
  from f(1) show "closeCalls (fold (run_goroutine env) gl w5) = closeCalls w"
    by (simp add: fold_run_goroutine_frame Run_spawn_frame)
  from f(2,3) show "\<exists>gs. goroutines (fold (run_goroutine env) gl w5) =
           goroutines w @ (if cmdWatchSubscriptionChan s1 \<noteq> None then [GoWatchManager] else [])
             @ [GoAccept] @ gs \<and> list_all is_worker gs"
    by (simp add: fold_run_goroutine_frame Run_spawn_frame)
qed

lemma polling_frame:
  "closeCalls (AcceptConnectionRequests_state s1 evs (Run_spawn s1 w)) = closeCalls w"
  "\<exists>gs. goroutines (AcceptConnectionRequests_state s1 evs (Run_spawn s1 w)) =
           goroutines w @ (if cmdWatchSubscriptionChan s1 \<noteq> None then [GoWatchManager] else [])
             @ [GoAccept] @ gs \<and> list_all is_worker gs"
  using state_frame [of s1 evs "Run_spawn s1 w"] by (auto simp: Run_spawn_frame)

section \<open>The claims\<close>

subsection \<open>C1\<close>

text \<open>
  C1, at a failing input. The claim: when \<^verbatim>\<open>Run\<close> has returned, whether after a
  fatal accept error or after cancellation, both registries are empty. The code: a worker
  calls \<^verbatim>\<open>wg.Done()\<close> as its first statement, so \<^verbatim>\<open>wg.Wait()\<close> does not wait
  for it, and \<^verbatim>\<open>Run\<close> returns while the worker of a connected client is still
  registered. First conjunct: one client, then \<^verbatim>\<open>Accept\<close> fails with
  \<^verbatim>\<open>EMFILE\<close>. Second conjunct: one client, then cancellation.
\<close>

theorem workers_registered_after_Run:
  "(case Run env_fatal srv fresh of
      None \<Rightarrow> False
    | Some (r, s', w') \<Rightarrow>
        r = Some (Errorf ''failed to accept connections ''
              (Errorf ''error accepting connection: '' (Errno 24)))
        \<and> ioThreadManager w' ''I-0-1'' = Some \<lparr>thread_id = ''I-0-1'', thread_conn = 7\<rparr>
        \<and> cmdHandlerManager w' ''C-0-1'' = Some \<lparr>handler_id = ''C-0-1''\<rparr>)
   \<and> (case Run env_cancel srv fresh of
      None \<Rightarrow> False
    | Some (r, s', w') \<Rightarrow>
        r = None
        \<and> ioThreadManager w' ''I-0-1'' = Some \<lparr>thread_id = ''I-0-1'', thread_conn = 7\<rparr>
        \<and> cmdHandlerManager w' ''C-0-1'' = Some \<lparr>handler_id = ''C-0-1''\<rparr>)"
  by code_simp

subsection \<open>C2\<close>

text \<open>
  C2, as stated: when a registration fails the server closes the accepted client socket
  and starts neither worker. This fails on the code. Here the command-handler registry
  rejects the identity \<^verbatim>\<open>C-0-1\<close>; no worker is started, but descriptor 7 is not
  among the descriptors passed to \<^verbatim>\<open>syscall.Close\<close>: the loop just continues.
\<close>

theorem registration_failure_leaves_socket_open:
  "(case RegisterCommandHandler (cmdHandlerManager taken) \<lparr>handler_id = ''C-0-1''\<rparr> of
      Inl e \<Rightarrow> e = DuplicateID | Inr m \<Rightarrow> False)
   \<and> fst (GenerateUniqueCommandHandlerID 0 taken) = ''C-0-1''
   \<and> goroutines (AcceptConnectionRequests_conn srv 7 0 0 taken) = []
   \<and> 7 \<notin> set (closeCalls (AcceptConnectionRequests_conn srv 7 0 0 taken))"
  by code_simp

text \<open>
  C2, amended: for every accepted connection, if the registration of the io-thread or of
  the command handler fails, the accept loop starts neither worker and closes nothing; the
  two worker goroutines are started exactly when both registrations have succeeded; either
  way the loop goes on to its next iteration.
\<close>

theorem registration_failure_abandons:
  assumes "GenerateUniqueIOThreadID now1 w = (ioThreadID, w1)"
    and "GenerateUniqueCommandHandlerID now2 w1 = (cmdHandlerID, w2)"
    and "thread = \<lparr>thread_id = ioThreadID, thread_conn = clientFD\<rparr>"
    and "handler = \<lparr>handler_id = cmdHandlerID\<rparr>"
    and "w' = AcceptConnectionRequests_conn s clientFD now1 now2 w"
  shows "((\<exists>e. RegisterIOThread (ioThreadManager w2) thread = Inl e)
            \<or> (\<exists>e. RegisterCommandHandler (cmdHandlerManager w2) handler = Inl e)
          \<longrightarrow> goroutines w' = goroutines w \<and> closeCalls w' = closeCalls w)
       \<and> ((\<exists>m. RegisterIOThread (ioThreadManager w2) thread = Inr m)
            \<and> (\<exists>r. RegisterCommandHandler (cmdHandlerManager w2) handler = Inr r)
          \<longrightarrow> goroutines w' = goroutines w @ [GoIOThread thread, GoCommandHandler handler])
       \<and> AcceptConnectionRequests s (Accepted clientFD None now1 now2 # evs) w
            = AcceptConnectionRequests s evs w'"
proof -
  from assms(1,2) have g: "goroutines w2 = goroutines w" "closeCalls w2 = closeCalls w"
    by (auto simp: GenerateUniqueIOThreadID_def GenerateUniqueCommandHandlerID_def
        split: prod.splits)
  from assms have w': "w' =
     (case RegisterIOThread (ioThreadManager w2) thread of
        Inl _ \<Rightarrow> w2
      | Inr m \<Rightarrow>
          (case RegisterCommandHandler (cmdHandlerManager w2) handler of
             Inl _ \<Rightarrow> w2\<lparr>ioThreadManager := m\<rparr>
           | Inr r \<Rightarrow>
               w2\<lparr>ioThreadManager := m, cmdHandlerManager := r,
                  wg := wg w2 + 2,
                  goroutines := goroutines w2 @ [GoIOThread thread, GoCommandHandler handler]\<rparr>))"
    by (simp add: AcceptConnectionRequests_conn_def Let_def split: sum.splits)
  show ?thesis
    using g by (auto simp: w' assms(5) [symmetric] split: sum.splits)
qed

text \<open>
  C2, witness: the amended statement at a state whose command-handler registry rejects
  the new identity (nothing started, nothing closed) and at a fresh state (both workers
  started).
\<close>

theorem registration_failure_abandons_witness:
  "goroutines (AcceptConnectionRequests_conn srv 7 0 0 taken) = goroutines taken
   \<and> closeCalls (AcceptConnectionRequests_conn srv 7 0 0 taken) = closeCalls taken
   \<and> goroutines (AcceptConnectionRequests_conn srv 7 0 0 fresh)
       = goroutines fresh @ [GoIOThread \<lparr>thread_id = ''I-0-1'', thread_conn = 7\<rparr>,
           GoCommandHandler \<lparr>handler_id = ''C-0-1''\<rparr>]"
proof -
  let ?t1 = "snd (GenerateUniqueIOThreadID 0 taken)"
  let ?t2 = "snd (GenerateUniqueCommandHandlerID 0 ?t1)"
  let ?f1 = "snd (GenerateUniqueIOThreadID 0 fresh)"
  let ?f2 = "snd (GenerateUniqueCommandHandlerID 0 ?f1)"
  have t: "fst (GenerateUniqueCommandHandlerID 0 ?t1) = ''C-0-1''"
    "cmdHandlerManager ?t2 ''C-0-1'' = Some \<lparr>handler_id = ''C-0-1''\<rparr>"
    by code_simp+
  have f: "fst (GenerateUniqueIOThreadID 0 fresh) = ''I-0-1''"
    "fst (GenerateUniqueCommandHandlerID 0 ?f1) = ''C-0-1''"
    "ioThreadManager ?f2 ''I-0-1'' = None" "cmdHandlerManager ?f2 ''C-0-1'' = None"
    by code_simp+
  have fails: "RegisterCommandHandler (cmdHandlerManager ?t2)
      \<lparr>handler_id = fst (GenerateUniqueCommandHandlerID 0 ?t1)\<rparr> = Inl DuplicateID"
    by (simp add: RegisterCommandHandler_def register_def t)
  have succeeds:
    "\<exists>m. RegisterIOThread (ioThreadManager ?f2)
        \<lparr>thread_id = fst (GenerateUniqueIOThreadID 0 fresh), thread_conn = 7\<rparr> = Inr m"
    "\<exists>r. RegisterCommandHandler (cmdHandlerManager ?f2)
        \<lparr>handler_id = fst (GenerateUniqueCommandHandlerID 0 ?f1)\<rparr> = Inr r"
    by (simp_all add: RegisterIOThread_def RegisterCommandHandler_def register_def f)
  from fails
    registration_failure_abandons [where ?now1.0 = 0 and w = taken and ?now2.0 = 0
      and clientFD = 7 and s = srv and evs = "[]",
      OF prod.collapse [symmetric] prod.collapse [symmetric] refl refl refl]
  have one: "goroutines (AcceptConnectionRequests_conn srv 7 0 0 taken) = goroutines taken
      \<and> closeCalls (AcceptConnectionRequests_conn srv 7 0 0 taken) = closeCalls taken"
    by blast
  from succeeds
    registration_failure_abandons [where ?now1.0 = 0 and w = fresh and ?now2.0 = 0
      and clientFD = 7 and s = srv and evs = "[]",
      OF prod.collapse [symmetric] prod.collapse [symmetric] refl refl refl]
  have two: "goroutines (AcceptConnectionRequests_conn srv 7 0 0 fresh)
       = goroutines fresh @ [GoIOThread \<lparr>thread_id = fst (GenerateUniqueIOThreadID 0 fresh), thread_conn = 7\<rparr>,
           GoCommandHandler \<lparr>handler_id = fst (GenerateUniqueCommandHandlerID 0 ?f1)\<rparr>]"
    by blast
  from one two show ?thesis by (simp add: f)
qed

subsection \<open>C3\<close>

text \<open>
  C3, as stated: no error of setting up one accepted connection ends the accept loop.
  This fails on the code. The handler of the client on descriptor 7 cannot be created:
  the loop returns that error, \<^verbatim>\<open>Run\<close> returns it wrapped and releases the
  listening socket, and the client waiting on descriptor 8 is never served.
\<close>

theorem handler_creation_failure_stops_server:
  "(case Run env_bad_client srv fresh of
      None \<Rightarrow> False
    | Some (r, s', w') \<Rightarrow>
        r = Some (Errorf ''failed to accept connections '' (IOHandlerErr 1))
        \<and> goroutines w' = [GoAccept] \<and> closeCalls w' = [3])"
  by code_simp

text \<open>
  C3, amended: a failure to create the I/O handler of an accepted descriptor ends the
  accept loop, which returns that error. The loop returns for three reasons only: the
  context is done, \<^verbatim>\<open>Accept\<close> fails with an error that is not would-block, or a
  handler cannot be created; so a registration failure never ends it. And what the
  workers' \<^verbatim>\<open>Start\<close> calls return never changes what \<^verbatim>\<open>Run\<close> returns.
\<close>

text \<open>
  C3, amended: a failure to create the I/O handler of an accepted descriptor ends the
  accept loop at once, which returns that error, whatever clients are waiting. The loop
  returns for three reasons only: the context is done, \<^verbatim>\<open>Accept\<close> fails with an
  error that is not would-block, or a handler cannot be created; so a registration
  failure never ends it. What the workers' \<^verbatim>\<open>Start\<close> calls return never changes
  whether \<^verbatim>\<open>Run\<close> returns or what it returns. Once the loop has returned an error
  after a successful bind, \<^verbatim>\<open>Run\<close> is blocked in \<^verbatim>\<open>wg.Wait()\<close> while a
  launched watch goroutine is still running; otherwise it releases the listening socket
  and returns nil when its select took \<^verbatim>\<open><-ctx.Done()\<close>, and that error wrapped when
  its select took the error channel.
\<close>

theorem connection_failures:
  "AcceptConnectionRequests s (Accepted clientFD (Some e) now1 now2 # evs) w = Some (Some e, w)
   \<and> (AcceptConnectionRequests s evs w = Some (r, w') \<longrightarrow>
        (\<exists>e. CtxDone e \<in> set evs \<and> r = Some e)
      \<or> (\<exists>e. AcceptErr e \<in> set evs \<and> e \<noteq> EAGAIN \<and> e \<noteq> EWOULDBLOCK
             \<and> r = Some (Errorf ''error accepting connection: '' (Errno e)))
      \<or> (\<exists>fd e now1 now2. Accepted fd (Some e) now1 now2 \<in> set evs \<and> r = Some e))
   \<and> map_option fst (Run (env\<lparr>thread_Start := f, handler_Start := g\<rparr>) s w)
        = map_option fst (Run env s w)
   \<and> (BindAndListen (sys env) s w = (None, s1, w1)
        \<and> AcceptConnectionRequests s1 (accepts env) (Run_spawn s1 w1) = Some (Some e', w5)
      \<longrightarrow> Run env s w =
           (if cmdWatchSubscriptionChan s1 \<noteq> None \<and> watch_Run env = StillRunning then None
            else Some (case select_fires env of
                         CaseCtxDone \<Rightarrow> None
                       | CaseErrChan \<Rightarrow> Some (Errorf ''failed to accept connections '' e'),
                       s1,
                       ReleasePort s1
                         (fold (run_goroutine env)
                            (drop (length (goroutines w)) (goroutines w5)) w5))))"
proof -
  have d: "Run env s w =
           (if cmdWatchSubscriptionChan s1 \<noteq> None \<and> watch_Run env = StillRunning then None
            else Some (case select_fires env of
                         CaseCtxDone \<Rightarrow> None
                       | CaseErrChan \<Rightarrow> Some (Errorf ''failed to accept connections '' e'),
                       s1,
                       ReleasePort s1
                         (fold (run_goroutine env)
                            (drop (length (goroutines w)) (goroutines w5)) w5)))"
    if "BindAndListen (sys env) s w = (None, s1, w1)"
      and "AcceptConnectionRequests s1 (accepts env) (Run_spawn s1 w1) = Some (Some e', w5)"
    using Run_after_bind [OF that] by (simp split: select_case.splits)
  show ?thesis
    using accept_loop_exits [of s evs w r w'] Run_ignores_worker_results d
    by simp
qed

text \<open>
  C3, witness: the amended statement at a script in which a handler cannot be created,
  at a script that ends by cancellation, at workers whose \<^verbatim>\<open>Start\<close> fails, and at
  a handler failure on a server without a watch goroutine (the wrapped error is returned)
  and with one that is still running (\<^verbatim>\<open>Run\<close> does not return).
\<close>

theorem connection_failures_witness:
  "AcceptConnectionRequests srv
       [Accepted 7 (Some (IOHandlerErr 1)) 0 0, AcceptErr 11, CtxDone Canceled] fresh
     = Some (Some (IOHandlerErr 1), fresh)
   \<and> AcceptConnectionRequests srv [AcceptErr 11, CtxDone Canceled] fresh = Some (Some Canceled, fresh)
   \<and> CtxDone Canceled \<in> set [AcceptErr 11, CtxDone Canceled]
   \<and> map_option fst (Run (env_cancel\<lparr>thread_Start := (\<lambda>i. Returned (Some (WorkerErr 1))),
          handler_Start := (\<lambda>i. Returned (Some (WorkerErr 2)))\<rparr>) srv fresh) = Some None
   \<and> map_option fst (Run env_bad_client srv fresh)
        = Some (Some (Errorf ''failed to accept connections '' (IOHandlerErr 1)))
   \<and> map_option fst (Run env_bad_client srv_watch fresh) = None"
proof -
  have a: "AcceptConnectionRequests srv [AcceptErr 11, CtxDone Canceled] fresh = Some (Some Canceled, fresh)"
    by (simp add: EAGAIN_def)
  have b: "map_option fst (Run env_cancel srv fresh) = Some None" by code_simp
  note first = connection_failures [where s = srv and clientFD = 7 and e = "IOHandlerErr 1"
      and ?now1.0 = 0 and ?now2.0 = 0 and evs = "[AcceptErr 11, CtxDone Canceled]"
      and w = fresh and r = "Some Canceled" and w' = fresh and env = env_cancel
      and f = "\<lambda>i. Returned (Some (WorkerErr 1))"
      and g = "\<lambda>i. Returned (Some (WorkerErr 2))"]
  have c: "sys env_bad_client = sys_ok" "select_fires env_bad_client = CaseErrChan"
    "watch_Run env_bad_client = StillRunning"
    by (simp_all add: env_bad_client_def)
  have B: "fst (BindAndListen sys_ok s fresh) = None" if "s = srv \<or> s = srv_watch" for s
    using that by (auto simp: BindAndListen_def BindAndListen_body_def sys_ok_def srv_def srv_watch_def)
  have ch: "cmdWatchSubscriptionChan (fst (snd (BindAndListen sys_ok srv fresh))) = None"
    "cmdWatchSubscriptionChan (fst (snd (BindAndListen sys_ok srv_watch fresh))) \<noteq> None"
    by code_simp+
  have L: "AcceptConnectionRequests s1 (accepts env_bad_client) v = Some (Some (IOHandlerErr 1), v)" for s1 v
    by (simp add: env_bad_client_def)
  have B1: "BindAndListen (sys env_bad_client) srv fresh
      = (None, fst (snd (BindAndListen sys_ok srv fresh)), snd (snd (BindAndListen sys_ok srv fresh)))"
    using B [of srv] c(1) by (metis prod.collapse)
  have B2: "BindAndListen (sys env_bad_client) srv_watch fresh
      = (None, fst (snd (BindAndListen sys_ok srv_watch fresh)),
         snd (snd (BindAndListen sys_ok srv_watch fresh)))"
    using B [of srv_watch] c(1) by (metis prod.collapse)
  from connection_failures [where env = env_bad_client and s = srv and w = fresh
      and ?s1.0 = "fst (snd (BindAndListen sys_ok srv fresh))"
      and ?w1.0 = "snd (snd (BindAndListen sys_ok srv fresh))" and e' = "IOHandlerErr 1"
      and ?w5.0 = "Run_spawn (fst (snd (BindAndListen sys_ok srv fresh)))
          (snd (snd (BindAndListen sys_ok srv fresh)))"] B1 L ch(1) c(2)
  have r1: "map_option fst (Run env_bad_client srv fresh)
        = Some (Some (Errorf ''failed to accept connections '' (IOHandlerErr 1)))"
    by simp
  from connection_failures [where env = env_bad_client and s = srv_watch and w = fresh
      and ?s1.0 = "fst (snd (BindAndListen sys_ok srv_watch fresh))"
      and ?w1.0 = "snd (snd (BindAndListen sys_ok srv_watch fresh))" and e' = "IOHandlerErr 1"
      and ?w5.0 = "Run_spawn (fst (snd (BindAndListen sys_ok srv_watch fresh)))
          (snd (snd (BindAndListen sys_ok srv_watch fresh)))"] B2 L ch(2) c(3)
  have r2: "map_option fst (Run env_bad_client srv_watch fresh) = None"
    by simp
  from first a b r1 r2 show ?thesis by simp
qed

subsection \<open>C4\<close>

text \<open>
  C4, as stated: every call of \<^verbatim>\<open>Run\<close> launches a goroutine that executes
  \<^verbatim>\<open>watchManager.Run\<close>. This fails on the code: with a nil
  \<^verbatim>\<open>cmdWatchSubscriptionChan\<close> the call returns without having launched one.
\<close>

theorem no_watch_goroutine_without_channel:
  "cmdWatchSubscriptionChan srv = None \<and>
   (case Run env_cancel_race srv fresh of
      None \<Rightarrow> False
    | Some (r, s', w') \<Rightarrow> GoWatchManager \<notin> set (goroutines w'))"
  by code_simp

text \<open>
  C4, amended: a call of \<^verbatim>\<open>Run\<close> that returns has launched exactly one goroutine
  executing \<^verbatim>\<open>watchManager.Run\<close> when the bind succeeded and
  \<^verbatim>\<open>cmdWatchSubscriptionChan\<close> is not nil, and none otherwise; and when it launched
  one it has not returned before \<^verbatim>\<open>watchManager.Run\<close> did.
\<close>

text \<open>
  C4, amended: every call of \<^verbatim>\<open>Run\<close> whose bind succeeds on a server whose
  \<^verbatim>\<open>cmdWatchSubscriptionChan\<close> is not nil launches exactly one goroutine executing
  \<^verbatim>\<open>watchManager.Run\<close>, first of all goroutines of the call (the accept goroutine
  and the workers follow); as long as the context is not cancelled that goroutine is
  running (the Watch Manager as the spec has it) and the call of \<^verbatim>\<open>Run\<close> has not
  returned. With a nil channel the call launches the accept goroutine and workers only;
  when the bind fails it returns the error of the bind and launches nothing. This holds
  at whatever point the call stands, returned or not.
\<close>

theorem Run_watch_goroutine:
  "case Run_reaches env s w of (p, s', w') \<Rightarrow>
     (case BindAndListen (sys env) s w of
        (Some e, s1, w1) \<Rightarrow>
          p = HasReturned (Some e) \<and> Run env s w = Some (Some e, s1, w1)
          \<and> goroutines w' = goroutines w
      | (None, s1, w1) \<Rightarrow>
          (\<exists>gs. goroutines w' =
                  goroutines w
                    @ (if cmdWatchSubscriptionChan s \<noteq> None then [GoWatchManager] else [])
                    @ [GoAccept] @ gs
                \<and> list_all is_worker gs)
          \<and> (cmdWatchSubscriptionChan s \<noteq> None \<and> watch_Run env = watchManager_Run cancelled
                \<and> \<not> cancelled
              \<longrightarrow> (p = AcceptLoopPolling \<or> p = WaitBlocks) \<and> Run env s w = None))"
proof -
  obtain berr s1 w1 where B: "BindAndListen (sys env) s w = (berr, s1, w1)"
    by (cases "BindAndListen (sys env) s w") auto
  show ?thesis
  proof (cases berr)
    case (Some e)
    with B BindAndListen_goroutines [OF B] show ?thesis
      by (simp add: Run_reaches_bind_failure Run_bind_failure)
  next
    case None
    with B have Bn: "BindAndListen (sys env) s w = (None, s1, w1)" by simp
    from BindAndListen_success [OF Bn] have w1: "w1 = w" by simp
    note ch = BindAndListen_chan [OF Bn]
    from Bn show ?thesis
    proof (cases rule: Run_reaches_cases)
      case polling
      with Bn ch polling_frame(2) [of s1 "accepts env" w] w1 show ?thesis
        by (simp add: watchManager_Run_def)
    next
      case (waiting aerr w5)
      with Bn ch reached_frame(2) [of s1 "accepts env" w aerr w5 env] w1 show ?thesis
        by (simp add: watchManager_Run_def)
    next
      case (returned aerr w5)
      with Bn ch reached_frame(2) [of s1 "accepts env" w aerr w5 env] w1 show ?thesis
        by (auto simp: watchManager_Run_def ReleasePort_def)
    qed
  qed
qed

text \<open>
  C4, witness: a server with a subscription channel whose context is not cancelled (the
  watch goroutine is launched first and \<^verbatim>\<open>Run\<close> has not returned), one without a
  channel (no watch goroutine), and a bind that fails (nothing launched).
\<close>

theorem Run_watch_goroutine_witness:
  "watch_Run env_fatal = watchManager_Run False
   \<and> (case Run env_fatal srv_watch fresh of None \<Rightarrow> True | Some res \<Rightarrow> False)
   \<and> (case Run_reaches env_fatal srv_watch fresh of (p, s', w') \<Rightarrow>
        p = WaitBlocks
        \<and> goroutines w' = [GoWatchManager, GoAccept,
             GoIOThread \<lparr>thread_id = ''I-0-1'', thread_conn = 7\<rparr>,
             GoCommandHandler \<lparr>handler_id = ''C-0-1''\<rparr>])
   \<and> (case Run_reaches env_fatal srv fresh of (p, s', w') \<Rightarrow>
        goroutines w' = [GoAccept,
             GoIOThread \<lparr>thread_id = ''I-0-1'', thread_conn = 7\<rparr>,
             GoCommandHandler \<lparr>handler_id = ''C-0-1''\<rparr>])
   \<and> (case Run_reaches env_fatal srv_badhost fresh of (p, s', w') \<Rightarrow>
        p = HasReturned (Some ErrInvalidIPAddress) \<and> goroutines w' = [])"
proof -
  have ev: "watch_Run env_fatal = watchManager_Run False"
    "(case Run_reaches env_fatal srv_watch fresh of (p, s', w') \<Rightarrow>
        p = WaitBlocks
        \<and> goroutines w' = [GoWatchManager, GoAccept,
             GoIOThread \<lparr>thread_id = ''I-0-1'', thread_conn = 7\<rparr>,
             GoCommandHandler \<lparr>handler_id = ''C-0-1''\<rparr>])"
    "(case Run_reaches env_fatal srv fresh of (p, s', w') \<Rightarrow>
        goroutines w' = [GoAccept,
             GoIOThread \<lparr>thread_id = ''I-0-1'', thread_conn = 7\<rparr>,
             GoCommandHandler \<lparr>handler_id = ''C-0-1''\<rparr>])"
    "(case Run_reaches env_fatal srv_badhost fresh of (p, s', w') \<Rightarrow>
        p = HasReturned (Some ErrInvalidIPAddress) \<and> goroutines w' = [])"
    "fst (BindAndListen (sys env_fatal) srv_watch fresh) = None"
    "cmdWatchSubscriptionChan srv_watch \<noteq> None"
    by code_simp+
  from Run_watch_goroutine [where env = env_fatal and s = srv_watch and w = fresh
      and cancelled = False] ev(1,5,6)
  have "Run env_fatal srv_watch fresh = None"
    by (auto split: prod.splits option.splits)
  with ev show ?thesis by simp
qed

subsection \<open>C5\<close>


text \<open>
  C5, amended: \<^verbatim>\<open>Run\<close> returns the error of \<^verbatim>\<open>BindAndListen\<close> when the bind
  fails. After a successful bind it returns nil when its select takes the case
  \<^verbatim>\<open><-ctx.Done()\<close>, and the wrapped error of the accept loop (which is the context's
  error when the loop ended by cancellation) when it takes the case of the error channel.
\<close>



subsection \<open>C6\<close>

text \<open>
  C6, as stated: any two calls of the generator with one category prefix return distinct
  identities, whatever the clock readings. This fails on the code: the sequence component
  is a \<^verbatim>\<open>uint64\<close> that \<^verbatim>\<open>atomic.AddUint64\<close> wraps, so with equal timestamps the
  first call and the call \<open>2^64\<close> calls later return the same identity.
\<close>

theorem GenerateUniqueID_wraps:
  "\<not> distinct (issued ''I'' 0 0 (replicate (2 ^ 64 + 1) 0))"
proof -
  let ?n = "2 ^ 64 + 1 :: nat"
  let ?xs = "issued ''I'' 0 0 (replicate ?n 0)"
  have l: "length ?xs = ?n" by (simp add: length_issued)
  have a: "?xs ! 0 = Sprintf_id ''I'' 0 1"
    using issued_nth [of 0 "replicate ?n 0" "''I''" 0 0] by simp
  have w: "(18446744073709551617 :: uint64) = 1" by simp
  have b: "?xs ! (2 ^ 64) = Sprintf_id ''I'' 0 1"
    using issued_nth [of "2 ^ 64" "replicate ?n 0" "''I''" 0 0] by (simp add: w)
  from a b have "?xs ! 0 = ?xs ! (2 ^ 64)" by simp
  moreover have "(0::nat) < length ?xs" "(2 ^ 64 :: nat) < length ?xs" using l by simp_all
  ultimately show ?thesis
    by (metis distinct_conv_nth zero_neq_numeral power_not_zero)
qed

text \<open>
  C6, amended: among at most \<open>2^64\<close> successive calls of the generator with one category
  prefix, no two return the same identity, whatever the clock readings (equal ones
  included): the sequence component alone tells them apart.
\<close>

theorem GenerateUniqueID_distinct:
  "length nows \<le> 2 ^ 64 \<Longrightarrow> distinct (issued pre c st nows)"
proof -
  assume len: "length nows \<le> 2 ^ 64"
  have "i = j" if i: "i < length nows" and j: "j < length nows"
    and e: "issued pre c st nows ! i = issued pre c st nows ! j" for i j
  proof -
    from e i j have "c + 1 + of_nat i = c + 1 + (of_nat j :: uint64)"
      by (simp only: issued_nth) (rule Sprintf_id_count)
    then have "(of_nat i :: uint64) = of_nat j" by simp
    moreover from i j len have "i < 2 ^ LENGTH(64)" "j < 2 ^ LENGTH(64)" by simp_all
    ultimately show "i = j" by (simp add: word_of_nat_eq_iff take_bit_nat_eq_self)
  qed
  then show ?thesis by (simp add: distinct_conv_nth length_issued) blast
qed

text \<open>
  C6, witness: two calls that read the same clock value return \<^verbatim>\<open>I-0-1\<close> and
  \<^verbatim>\<open>I-0-2\<close>.
\<close>

theorem GenerateUniqueID_distinct_witness:
  "length [0, 0 :: int64] \<le> 2 ^ 64 \<and> distinct (issued ''I'' 0 0 [0, 0])
     \<and> issued ''I'' 0 0 [0, 0] = [''I-0-1'', ''I-0-2'']"
proof -
  have "issued ''I'' 0 0 [0, 0] = [''I-0-1'', ''I-0-2'']" by code_simp
  then show ?thesis using GenerateUniqueID_distinct [of "[0, 0]" "''I''" 0 0] by simp
qed

subsection \<open>C7\<close>

text \<open>
  C7, at a failing input. The claim: on every failure path of \<^verbatim>\<open>BindAndListen\<close> the
  socket it created is closed before the error is returned. The code: the host
  \<^verbatim>\<open>"localhost"\<close> does not parse; \<^verbatim>\<open>ErrInvalidIPAddress\<close> is returned without
  being assigned to the local \<^verbatim>\<open>err\<close> the deferred function tests, and descriptor 3
  is never passed to \<^verbatim>\<open>syscall.Close\<close>.
\<close>

theorem BindAndListen_invalid_host_leaks_socket:
  "Socket sys_ok = Inr 3 \<and> ParseIP sys_ok (Host srv_badhost) = None
   \<and> fst (BindAndListen sys_ok srv_badhost fresh) = Some ErrInvalidIPAddress
   \<and> closeCalls (snd (snd (BindAndListen sys_ok srv_badhost fresh))) = []"
  by code_simp

subsection \<open>C8\<close>

text \<open>
  C8: in the accept loop any run of would-block results of \<^verbatim>\<open>syscall.Accept\<close>
  (\<^verbatim>\<open>EAGAIN\<close> or \<^verbatim>\<open>EWOULDBLOCK\<close>) is invisible: the loop goes on with the next
  iteration in the same state and returns what it would have returned without them;
  every other error of \<^verbatim>\<open>Accept\<close> ends the loop, which returns it (wrapped) to its
  caller.
\<close>

theorem would_block_not_surfaced:
  assumes "\<forall>e \<in> set es. e = EAGAIN \<or> e = EWOULDBLOCK"
  shows "AcceptConnectionRequests s (map AcceptErr es @ evs) w = AcceptConnectionRequests s evs w
       \<and> (e \<noteq> EAGAIN \<and> e \<noteq> EWOULDBLOCK \<longrightarrow>
            AcceptConnectionRequests s (map AcceptErr es @ AcceptErr e # evs) w
              = Some (Some (Errorf ''error accepting connection: '' (Errno e)), w))"
proof -
  have skip: "AcceptConnectionRequests s (map AcceptErr es @ rest) w
      = AcceptConnectionRequests s rest w" for rest
    using assms by (induction es) auto
  show ?thesis by (simp add: skip)
qed

text \<open>
  C8, witness: three would-block results followed by cancellation, and followed by
  \<^verbatim>\<open>EMFILE\<close> (24).
\<close>

theorem would_block_not_surfaced_witness:
  "set [EAGAIN, EWOULDBLOCK, EAGAIN] \<subseteq> {EAGAIN, EWOULDBLOCK}
   \<and> AcceptConnectionRequests srv (map AcceptErr [EAGAIN, EWOULDBLOCK, EAGAIN] @ [CtxDone Canceled]) fresh
       = Some (Some Canceled, fresh)
   \<and> (24 \<noteq> EAGAIN \<and> 24 \<noteq> EWOULDBLOCK)
   \<and> AcceptConnectionRequests srv
         (map AcceptErr [EAGAIN, EWOULDBLOCK, EAGAIN] @ AcceptErr 24 # [CtxDone Canceled]) fresh
       = Some (Some (Errorf ''error accepting connection: '' (Errno 24)), fresh)"
proof -
  have h: "\<forall>e \<in> set [EAGAIN, EWOULDBLOCK, EAGAIN]. e = EAGAIN \<or> e = EWOULDBLOCK" by simp
  have n: "24 \<noteq> EAGAIN \<and> 24 \<noteq> EWOULDBLOCK" by (simp add: EAGAIN_def EWOULDBLOCK_def)
  from would_block_not_surfaced [OF h, of srv "[CtxDone Canceled]" fresh 24] n h
  show ?thesis by simp
qed

subsection \<open>C9\<close>

text \<open>
  C9, as stated: no shutdown path skips the release of the listening socket. This fails
  on the code. A server with a watch-subscription channel whose \<^verbatim>\<open>Accept\<close> fails
  with \<^verbatim>\<open>EMFILE\<close> while the context is not cancelled: the select of \<^verbatim>\<open>Run\<close>
  takes the error, \<^verbatim>\<open>Shutdown\<close> does nothing, and \<^verbatim>\<open>Run\<close> is blocked in
  \<^verbatim>\<open>wg.Wait()\<close> behind the watch goroutine with descriptor 3 not closed.
\<close>

theorem fatal_accept_error_leaves_socket_open:
  "watch_Run env_fatal = watchManager_Run False
   \<and> (case Run_reaches env_fatal srv_watch fresh of (p, s', w') \<Rightarrow>
        p = WaitBlocks \<and> serverFD s' = 3 \<and> closeCalls w' = [])
   \<and> (case Run env_fatal srv_watch fresh of None \<Rightarrow> True | Some res \<Rightarrow> False)"
  by code_simp

text \<open>
  C9, amended: a call of \<^verbatim>\<open>Run\<close> that has bound the listening socket has passed
  nothing to \<^verbatim>\<open>syscall.Close\<close> as long as it has not returned, and when it has
  returned it has passed the listening socket, exactly once, whichever case of its select
  fired. It has returned exactly when the accept loop has returned (by cancellation or by
  an error) and the watch goroutine, if one was launched, is not still running.
\<close>

theorem listening_socket_released_once:
  "BindAndListen (sys env) s w = (None, s1, w1) \<longrightarrow>
     (case Run_reaches env s w of (p, s', w') \<Rightarrow>
        s' = s1 \<and> Socket (sys env) = Inr (serverFD s1)
        \<and> closeCalls w' =
            closeCalls w @ (case p of HasReturned r \<Rightarrow> [serverFD s1] | _ \<Rightarrow> [])
        \<and> ((\<exists>r. p = HasReturned r) =
             (AcceptConnectionRequests s1 (accepts env) (Run_spawn s1 w1) \<noteq> None
              \<and> (cmdWatchSubscriptionChan s1 = None \<or> watch_Run env \<noteq> StillRunning)))
        \<and> Run env s w = (case p of HasReturned r \<Rightarrow> Some (r, s', w') | _ \<Rightarrow> None))"
proof
  assume B: "BindAndListen (sys env) s w = (None, s1, w1)"
  from BindAndListen_success [OF B] have w1: "w1 = w"
    and sock: "Socket (sys env) = Inr (serverFD s1)" by simp_all
  from B show "case Run_reaches env s w of (p, s', w') \<Rightarrow>
        s' = s1 \<and> Socket (sys env) = Inr (serverFD s1)
        \<and> closeCalls w' =
            closeCalls w @ (case p of HasReturned r \<Rightarrow> [serverFD s1] | _ \<Rightarrow> [])
        \<and> ((\<exists>r. p = HasReturned r) =
             (AcceptConnectionRequests s1 (accepts env) (Run_spawn s1 w1) \<noteq> None
              \<and> (cmdWatchSubscriptionChan s1 = None \<or> watch_Run env \<noteq> StillRunning)))
        \<and> Run env s w = (case p of HasReturned r \<Rightarrow> Some (r, s', w') | _ \<Rightarrow> None)"
  proof (cases rule: Run_reaches_cases)
    case polling
    with sock w1 polling_frame(1) [of s1 "accepts env" w] show ?thesis by simp
  next
    case (waiting aerr w5)
    with sock w1 reached_frame(1) [of s1 "accepts env" w aerr w5 env] show ?thesis by simp
  next
    case (returned aerr w5)
    with sock w1 reached_frame(1) [of s1 "accepts env" w aerr w5 env] show ?thesis
      by (auto simp: ReleasePort_def)
  qed
qed

text \<open>
  C9, witness: shutdown by a fatal accept error and shutdown by cancellation, both
  returning with the listening socket closed once; and the fatal accept error with the
  watch goroutine still running, not returned and nothing closed.
\<close>

theorem listening_socket_released_once_witness:
  "(case Run env_fatal srv fresh of
      None \<Rightarrow> False
    | Some (r, s', w') \<Rightarrow> closeCalls w' = [3] \<and> serverFD s' = 3)
   \<and> (case Run env_cancel srv_watch fresh of
      None \<Rightarrow> False
    | Some (r, s', w') \<Rightarrow> closeCalls w' = [3] \<and> serverFD s' = 3)
   \<and> (case Run_reaches env_fatal srv_watch fresh of (p, s', w') \<Rightarrow>
        p = WaitBlocks \<and> closeCalls w' = [])"
proof -
  let ?B = "\<lambda>s. BindAndListen sys_ok s fresh"
  have c: "sys env_cancel = sys_ok" "sys env_fatal = sys_ok"
    by (simp_all add: env_cancel_def env_fatal_def)
  have b: "fst (?B srv) = None" "fst (?B srv_watch) = None"
    "serverFD (fst (snd (?B srv))) = 3" "serverFD (fst (snd (?B srv_watch))) = 3"
    "closeCalls fresh = []"
    by code_simp+
  have p: "(case Run_reaches env_fatal srv fresh of (p, s', w') \<Rightarrow> p \<noteq> AcceptLoopPolling
        \<and> p \<noteq> SelectBlocks \<and> p \<noteq> WaitBlocks)"
    "(case Run_reaches env_cancel srv_watch fresh of (p, s', w') \<Rightarrow> p \<noteq> AcceptLoopPolling
        \<and> p \<noteq> SelectBlocks \<and> p \<noteq> WaitBlocks)"
    "(case Run_reaches env_fatal srv_watch fresh of (p, s', w') \<Rightarrow> p = WaitBlocks)"
    by code_simp+
  have B1: "BindAndListen (sys env_fatal) srv fresh = (None, fst (snd (?B srv)), snd (snd (?B srv)))"
    using b(1) c(2) by (metis prod.collapse)
  have B2: "BindAndListen (sys env_cancel) srv_watch fresh
      = (None, fst (snd (?B srv_watch)), snd (snd (?B srv_watch)))"
    using b(2) c(1) by (metis prod.collapse)
  have B3: "BindAndListen (sys env_fatal) srv_watch fresh
      = (None, fst (snd (?B srv_watch)), snd (snd (?B srv_watch)))"
    using b(2) c(2) by (metis prod.collapse)
  from listening_socket_released_once [where env = env_fatal and s = srv and w = fresh
      and ?s1.0 = "fst (snd (?B srv))" and ?w1.0 = "snd (snd (?B srv))"] B1 p(1) b(3,5)
  have r1: "case Run env_fatal srv fresh of
      None \<Rightarrow> False
    | Some (r, s', w') \<Rightarrow> closeCalls w' = [3] \<and> serverFD s' = 3"
    by (auto split: prod.splits run_point.splits)
  from listening_socket_released_once [where env = env_cancel and s = srv_watch and w = fresh
      and ?s1.0 = "fst (snd (?B srv_watch))" and ?w1.0 = "snd (snd (?B srv_watch))"] B2 p(2) b(4,5)
  have r2: "case Run env_cancel srv_watch fresh of
      None \<Rightarrow> False
    | Some (r, s', w') \<Rightarrow> closeCalls w' = [3] \<and> serverFD s' = 3"
    by (auto split: prod.splits run_point.splits)
  from listening_socket_released_once [where env = env_fatal and s = srv_watch and w = fresh
      and ?s1.0 = "fst (snd (?B srv_watch))" and ?w1.0 = "snd (snd (?B srv_watch))"] B3 p(3) b(5)
  have r3: "case Run_reaches env_fatal srv_watch fresh of (p, s', w') \<Rightarrow>
        p = WaitBlocks \<and> closeCalls w' = []"
    by (auto split: prod.splits run_point.splits)
  from r1 r2 r3 show ?thesis by simp
qed

subsection \<open>C10\<close>

text \<open>
  C10, as stated: the accept loop stops and the listening socket is closed through the
  cancellation of the context and the deferred \<^verbatim>\<open>ReleasePort\<close> only. This fails on
  the code: in this script nothing is cancelled and the accept loop stops all the same,
  on the error \<^verbatim>\<open>EMFILE\<close> of \<^verbatim>\<open>Accept\<close>.
\<close>

theorem accept_loop_stops_without_cancellation:
  "accepts env_fatal = [Accepted 7 None 0 0, AcceptErr 24]
   \<and> map_option fst (AcceptConnectionRequests srv (accepts env_fatal) fresh)
       = Some (Some (Errorf ''error accepting connection: '' (Errno 24)))"
  by code_simp

text \<open>
  C10, amended: \<^verbatim>\<open>Server.Shutdown\<close> is a no-op, the server's fields and the shared
  state (both registries included) are after the call what they were before it. The
  accept loop stops only on what it observes itself: the context done, an error of
  \<^verbatim>\<open>Accept\<close> that is not would-block, or a handler that cannot be created. In a call
  of \<^verbatim>\<open>Run\<close> that has bound the socket nothing is closed before the call returns,
  and the state it returns is the deferred \<^verbatim>\<open>ReleasePort\<close> applied to a state in
  which nothing was closed. Neither effect comes from \<^verbatim>\<open>Shutdown\<close>.
\<close>

theorem Shutdown_noop:
  "Shutdown (s, w) = (s, w)
   \<and> (AcceptConnectionRequests s evs w = Some (r, w') \<longrightarrow>
        (\<exists>e. CtxDone e \<in> set evs \<and> r = Some e)
      \<or> (\<exists>e. AcceptErr e \<in> set evs \<and> e \<noteq> EAGAIN \<and> e \<noteq> EWOULDBLOCK
             \<and> r = Some (Errorf ''error accepting connection: '' (Errno e)))
      \<or> (\<exists>fd e now1 now2. Accepted fd (Some e) now1 now2 \<in> set evs \<and> r = Some e))
   \<and> (BindAndListen (sys env) s w = (None, s1, w1) \<longrightarrow>
        (case Run_reaches env s w of (p, s', w'') \<Rightarrow>
           (case p of
              HasReturned res \<Rightarrow> (\<exists>v. w'' = ReleasePort s1 v \<and> closeCalls v = closeCalls w)
            | _ \<Rightarrow> closeCalls w'' = closeCalls w)))"
proof -
  have c: "case Run_reaches env s w of (p, s', w'') \<Rightarrow>
           (case p of
              HasReturned res \<Rightarrow> (\<exists>v. w'' = ReleasePort s1 v \<and> closeCalls v = closeCalls w)
            | _ \<Rightarrow> closeCalls w'' = closeCalls w)"
    if B: "BindAndListen (sys env) s w = (None, s1, w1)"
  proof -
    from BindAndListen_success [OF B] have w1: "w1 = w" by simp
    from B show ?thesis
    proof (cases rule: Run_reaches_cases)
      case polling
      with w1 polling_frame(1) [of s1 "accepts env" w] show ?thesis by simp
    next
      case (waiting aerr w5)
      with w1 reached_frame(1) [of s1 "accepts env" w aerr w5 env] show ?thesis by simp
    next
      case (returned aerr w5)
      with w1 reached_frame(1) [of s1 "accepts env" w aerr w5 env] show ?thesis by auto
    qed
  qed
  show ?thesis
    using accept_loop_exits [of s evs w r w'] c by (simp add: Shutdown_def)
qed

text \<open>
  C10, witness: a script that ends by cancellation, and a call of \<^verbatim>\<open>Run\<close> that
  returns nil with the listening socket as its only close.
\<close>

theorem Shutdown_noop_witness:
  "Shutdown (srv, fresh) = (srv, fresh)
   \<and> AcceptConnectionRequests srv [AcceptErr 11, CtxDone Canceled] fresh = Some (Some Canceled, fresh)
   \<and> CtxDone Canceled \<in> set [AcceptErr 11, CtxDone Canceled]
   \<and> (case Run_reaches env_cancel srv fresh of (p, s', w'') \<Rightarrow>
        p = HasReturned None \<and> closeCalls w'' = [3])"
proof -
  have a: "AcceptConnectionRequests srv [AcceptErr 11, CtxDone Canceled] fresh = Some (Some Canceled, fresh)"
    by (simp add: EAGAIN_def)
  have b: "fst (BindAndListen sys_ok srv fresh) = None" "sys env_cancel = sys_ok"
    "closeCalls fresh = []" "serverFD (fst (snd (BindAndListen sys_ok srv fresh))) = 3"
    "(case Run_reaches env_cancel srv fresh of (p, s', w'') \<Rightarrow> p = HasReturned None)"
    by (code_simp, simp add: env_cancel_def, code_simp+)
  have B: "BindAndListen (sys env_cancel) srv fresh
      = (None, fst (snd (BindAndListen sys_ok srv fresh)), snd (snd (BindAndListen sys_ok srv fresh)))"
    using b(1,2) by (metis prod.collapse)
  note inst = Shutdown_noop [where s = srv and w = fresh and evs = "[AcceptErr 11, CtxDone Canceled]"
      and r = "Some Canceled" and w' = fresh and env = env_cancel
      and ?s1.0 = "fst (snd (BindAndListen sys_ok srv fresh))"
      and ?w1.0 = "snd (snd (BindAndListen sys_ok srv fresh))"]
  from inst B b(3,4,5)
  have "case Run_reaches env_cancel srv fresh of (p, s', w'') \<Rightarrow>
        p = HasReturned None \<and> closeCalls w'' = [3]"
    by (auto simp: ReleasePort_def split: prod.splits run_point.splits)
  with inst a show ?thesis by simp
qed

end
